theory Spec2Isabelle
  imports Complex_Main
begin

section \<open>Errors\<close>

text \<open>
  The exceptions of \<^verbatim>\<open>app/main.py\<close> that the model keeps as values.
  \<^verbatim>\<open>ValueError\<close> is what Python's \<^verbatim>\<open>range\<close> raises for a zero step;
  \<^verbatim>\<open>ModelCallError\<close> stands for any exception raised by \<^verbatim>\<open>get_completion\<close> or
  \<^verbatim>\<open>get_embedding\<close> (the model client, \<^verbatim>\<open>app.llm\<close>).
\<close>

datatype error = ValueError | ModelCallError

section \<open>The chunker: \<^verbatim>\<open>get_excerpts\<close>\<close>

text \<open>
  A Python \<^verbatim>\<open>str\<close> is modelled as a \<^typ>\<open>string\<close>, one \<^typ>\<open>char\<close> per code point
  (code points below 256). \<^verbatim>\<open>content[a:b]\<close> is Python slicing: a negative bound
  counts from the end, and both bounds are clipped to the string.
\<close>

definition py_slice :: "'a list \<Rightarrow> int \<Rightarrow> int \<Rightarrow> 'a list" where
  "py_slice xs a b =
     (let n = int (length xs);
          lo = (if a < 0 then max (a + n) 0 else min a n);
          hi = (if b < 0 then max (b + n) 0 else min b n)
      in take (nat (hi - lo)) (drop (nat lo) xs))"

text \<open>
  \<^verbatim>\<open>for i in range(0, len(content), step): excerpts.append(content[i:i + n])\<close>.
  The loop runs while \<open>i < len(content)\<close> for a positive step; for a negative step the
  range \<^verbatim>\<open>range(0, len(content), step)\<close> is empty, since \<open>0 > len(content)\<close> never holds.
\<close>

function get_excerpts_loop :: "string \<Rightarrow> int \<Rightarrow> int \<Rightarrow> int \<Rightarrow> string list \<Rightarrow> string list" where
  "get_excerpts_loop content n step i excerpts =
     (if 0 < step \<and> i < int (length content)
      then get_excerpts_loop content n step (i + step) (excerpts @ [py_slice content i (i + n)])
      else excerpts)"
  by pat_completeness auto
termination
  by (relation "measure (\<lambda>(content, n, step, i, excerpts). nat (int (length content) - i))") auto

text \<open>
  \<^verbatim>\<open>def get_excerpts(content, n=2000, overlap=200)\<close>. \<^verbatim>\<open>range\<close> raises
  \<^verbatim>\<open>ValueError\<close> when its step is zero, before the first iteration.
\<close>

definition get_excerpts :: "string \<Rightarrow> int \<Rightarrow> int \<Rightarrow> error + string list" where
  "get_excerpts content n overlap =
     (let step = n - overlap in
      if step = 0 then Inl ValueError
      else Inr (get_excerpts_loop content n step 0 []))"

section \<open>String operations of Python used by the extraction leg\<close>

text \<open>
  \<^verbatim>\<open>str.isspace\<close> on code points below 256: the ASCII white space and separators
  (9 to 13, 28 to 32), NEL (133) and the no-break space (160).
\<close>

definition is_space :: "char \<Rightarrow> bool" where
  "is_space c =
     (let k = (of_char c :: nat)
      in (9 \<le> k \<and> k \<le> 13) \<or> (28 \<le> k \<and> k \<le> 32) \<or> k = 133 \<or> k = 160)"

text \<open>\<^verbatim>\<open>s.strip()\<close>: leading and trailing white space removed.\<close>

definition strip :: "string \<Rightarrow> string" where
  "strip s = rev (dropWhile is_space (rev (dropWhile is_space s)))"

text \<open>
  \<^verbatim>\<open>s.lower()\<close> on code points below 256: the letters A to Z and the Latin-1 capitals
  (192 to 222 except the multiplication sign 215) move up by 32.
\<close>

definition lower_char :: "char \<Rightarrow> char" where
  "lower_char c =
     (let k = (of_char c :: nat)
      in if (65 \<le> k \<and> k \<le> 90) \<or> (192 \<le> k \<and> k \<le> 222 \<and> k \<noteq> 215)
         then char_of (k + 32) else c)"

definition lower :: "string \<Rightarrow> string" where
  "lower s = map lower_char s"

definition startswith :: "string \<Rightarrow> string \<Rightarrow> bool" where
  "startswith s p = (take (length p) s = p)"

definition endswith :: "string \<Rightarrow> string \<Rightarrow> bool" where
  "endswith s p = (length p \<le> length s \<and> drop (length s - length p) s = p)"

text \<open>
  \<^verbatim>\<open>s.replace(old, new)\<close>: every occurrence of \<open>old\<close>, found from the left and not
  overlapping, becomes \<open>new\<close>. For the empty \<open>old\<close> Python puts \<open>new\<close> before every
  character and at the end.
\<close>

function replace_from :: "string \<Rightarrow> string \<Rightarrow> string \<Rightarrow> string" where
  "replace_from old new [] = []"
| "replace_from old new (c # cs) =
     (if old \<noteq> [] \<and> take (length old) (c # cs) = old
      then new @ replace_from old new (drop (length old) (c # cs))
      else c # replace_from old new cs)"
  by pat_completeness auto
termination
  by (relation "measure (\<lambda>(old, new, s). length s)") (auto simp: neq_Nil_conv)

definition replace :: "string \<Rightarrow> string \<Rightarrow> string \<Rightarrow> string" where
  "replace s old new =
     (if old = [] then new @ concat (map (\<lambda>c. c # new) s) else replace_from old new s)"

text \<open>
  The regular expression that \<^verbatim>\<open>re.split\<close> is given is the alternation of the markers:
  at each position the first marker of the list that occurs there is taken, and the
  scan goes on behind it. \<open>piece\<close> is the text since the last marker.
\<close>

definition marker_at :: "string list \<Rightarrow> string \<Rightarrow> string option" where
  "marker_at markers s = find (\<lambda>m. m \<noteq> [] \<and> take (length m) s = m) markers"

function split_pieces :: "string list \<Rightarrow> string \<Rightarrow> string \<Rightarrow> string list" where
  "split_pieces markers piece [] = [piece]"
| "split_pieces markers piece (c # cs) =
     (case marker_at markers (c # cs) of
        Some m \<Rightarrow> piece # split_pieces markers [] (drop (length m) (c # cs))
      | None \<Rightarrow> split_pieces markers (piece @ [c]) cs)"
  by pat_completeness auto
termination
  by (relation "measure (\<lambda>(markers, piece, s). length s)")
     (auto simp: marker_at_def find_Some_iff neq_Nil_conv)

text \<open>
  Modelled from the spec: \<^verbatim>\<open>split_string_by_multi_markers\<close> of \<^verbatim>\<open>app.utilities\<close> is not
  among the source files. The spec has the records split on the record delimiter and
  the fields on the field delimiter; \<^verbatim>\<open>extract_entities\<close> tests \<^verbatim>\<open>if not fields\<close>, so the
  result can be empty: the pieces between the markers are trimmed of white space and
  the empty ones are left out. With no marker the content is returned whole.
\<close>

definition split_string_by_multi_markers :: "string \<Rightarrow> string list \<Rightarrow> string list" where
  "split_string_by_multi_markers content markers =
     (if markers = [] then [content]
      else filter (\<lambda>r. r \<noteq> []) (map strip (split_pieces markers [] content)))"

text \<open>
  Modelled from the spec: \<^verbatim>\<open>clean_str\<close> of \<^verbatim>\<open>app.utilities\<close> is not among the source
  files. The spec has each record normalised (stray quoting and white space trimmed)
  before its fields are split. \<^verbatim>\<open>extract_entities\<close> compares field 0 with the quoted
  texts \<^verbatim>\<open>"entity"\<close>, \<^verbatim>\<open>"relationship"\<close> and \<^verbatim>\<open>"content_keywords"\<close>, so the quotes that
  enclose a field are kept; the model trims the surrounding white space.
\<close>

definition clean_str :: "string \<Rightarrow> string" where
  "clean_str s = strip s"

section \<open>The stores\<close>

text \<open>
  The record that \<^verbatim>\<open>embed_document\<close> writes to \<^verbatim>\<open>EXCERPT_DB\<close> under the excerpt id, and
  the record it upserts into the vector index (\<^verbatim>\<open>__vector__\<close>, \<^verbatim>\<open>__doc_id__\<close>,
  \<^verbatim>\<open>__inserted_at__\<close>; \<^verbatim>\<open>__id__\<close> is the key). Vectors and time stamps are Python
  floats; they are only stored, never computed with, and are modelled as reals.
\<close>

type_synonym vector = "real list"

record excerpt_record =
  x_doc_id :: string
  x_doc_order_index :: nat
  x_excerpt :: string
  x_summary :: string
  x_indexed_at :: real

record vector_record =
  v_vector :: vector
  v_doc_id :: string
  v_inserted_at :: real

text \<open>
  The vector index (\<^verbatim>\<open>NanoVectorDB\<close>, an external library) keeps its records in a list,
  one per id. The three operations follow the spec's contract of the index:
  \<^verbatim>\<open>upsert\<close> replaces the record of an id that is present and appends otherwise,
  \<^verbatim>\<open>delete\<close> removes the records of the given ids, \<^verbatim>\<open>query\<close> returns at most \<open>top_k\<close>
  records, best similarity first, none with a similarity below the threshold. The
  similarity of two vectors is a parameter.
\<close>

type_synonym vector_index = "(string \<times> vector_record) list"

fun upsert :: "string \<times> vector_record \<Rightarrow> vector_index \<Rightarrow> vector_index" where
  "upsert (k, r) [] = [(k, r)]"
| "upsert (k, r) ((k', r') # db) =
     (if k' = k then (k, r) # db else (k', r') # upsert (k, r) db)"

definition delete :: "string list \<Rightarrow> vector_index \<Rightarrow> vector_index" where
  "delete ids db = filter (\<lambda>(k, r). k \<notin> set ids) db"

definition vector_query ::
  "(vector \<Rightarrow> vector \<Rightarrow> real) \<Rightarrow> vector \<Rightarrow> nat \<Rightarrow> real \<Rightarrow> vector_index \<Rightarrow> (string \<times> real) list" where
  "vector_query similarity q top_k better_than_threshold db =
     takeWhile (\<lambda>(k, score). better_than_threshold \<le> score)
       (take top_k
          (sort_key (\<lambda>(k, score). - score)
             (map (\<lambda>(k, r). (k, similarity q (v_vector r))) db)))"

text \<open>
  The knowledge graph (\<^verbatim>\<open>networkx.DiGraph\<close>, an external library): nodes and directed
  edges carry attribute dictionaries, the graph carries its own. \<^verbatim>\<open>add_node\<close> creates
  the node or updates the attributes of an existing one; \<^verbatim>\<open>add_edge\<close> does the same
  for the edge and creates a missing end point with no attributes.
\<close>

type_synonym attrs = "string \<rightharpoonup> string"

record graph =
  g_nodes :: "string \<rightharpoonup> attrs"
  g_edges :: "string \<times> string \<rightharpoonup> attrs"
  g_attrs :: attrs

definition DiGraph :: graph where
  "DiGraph = \<lparr>g_nodes = Map.empty, g_edges = Map.empty, g_attrs = Map.empty\<rparr>"

definition attrs_of :: "('k \<rightharpoonup> attrs) \<Rightarrow> 'k \<Rightarrow> attrs" where
  "attrs_of m k = (case m k of None \<Rightarrow> Map.empty | Some a \<Rightarrow> a)"

definition add_node :: "graph \<Rightarrow> string \<Rightarrow> attrs \<Rightarrow> graph" where
  "add_node g name attr = g\<lparr>g_nodes := (g_nodes g)(name \<mapsto> attrs_of (g_nodes g) name ++ attr)\<rparr>"

definition add_edge :: "graph \<Rightarrow> string \<Rightarrow> string \<Rightarrow> attrs \<Rightarrow> graph" where
  "add_edge g u v attr =
     (let g1 = add_node g u Map.empty;
          g2 = add_node g1 v Map.empty
      in g2\<lparr>g_edges := (g_edges g2)((u, v) \<mapsto> attrs_of (g_edges g2) (u, v) ++ attr)\<rparr>)"

text \<open>
  The graph file \<^verbatim>\<open>KG_DB\<close>: absent, present but not readable as GraphML, or holding a
  graph (\<^verbatim>\<open>write_graphml\<close> followed by \<^verbatim>\<open>read_graphml\<close> gives the graph back).
\<close>

datatype kg_file = NoFile | Unreadable | GraphML graph

text \<open>
  The state of the program: the four JSON maps, the vector index as the process holds
  it (\<^verbatim>\<open>embeddings_db\<close>) and as its storage file was last saved (\<^verbatim>\<open>embeddings_file\<close>),
  the graph file, and \<^verbatim>\<open>tick\<close>, the number of calls made so far to the model client
  and to the clock: their answers may differ from call to call, so they are read from
  oracles at the current tick.
\<close>

record state =
  source_to_doc_id_map :: "string \<rightharpoonup> string"
  doc_id_to_source_map :: "string \<rightharpoonup> string"
  doc_id_to_excerpt_ids :: "string \<rightharpoonup> string list"
  excerpt_db :: "string \<rightharpoonup> excerpt_record"
  embeddings_db :: vector_index
  embeddings_file :: vector_index
  kg_db :: kg_file
  tick :: nat

text \<open>
  What the program takes from outside \<^verbatim>\<open>app/main.py\<close>: the hash of \<^verbatim>\<open>make_hash\<close>
  (content and prefix), the model client (\<open>None\<close> when the call raises), the clock,
  and the two prompt builders of \<^verbatim>\<open>app.prompts\<close>.
\<close>

record env =
  make_hash :: "string \<Rightarrow> string \<Rightarrow> string"
  completion :: "nat \<Rightarrow> string \<Rightarrow> string option"
  embedding :: "nat \<Rightarrow> string \<Rightarrow> vector option"
  clock :: "nat \<Rightarrow> real"
  excerpt_summary_prompt :: "string \<Rightarrow> string \<Rightarrow> string"
  get_extract_entities_prompt :: "string \<Rightarrow> string"

text \<open>A call returns its value and the state it leaves, or raises and leaves a state.\<close>

datatype 'a outcome = Done 'a state | Raised error state

definition state_of :: "'a outcome \<Rightarrow> state" where
  "state_of r = (case r of Done v s \<Rightarrow> s | Raised e s \<Rightarrow> s)"

definition get_completion :: "env \<Rightarrow> string \<Rightarrow> state \<Rightarrow> string outcome" where
  "get_completion E prompt s =
     (case completion E (tick s) prompt of
        None \<Rightarrow> Raised ModelCallError (s\<lparr>tick := Suc (tick s)\<rparr>)
      | Some result \<Rightarrow> Done result (s\<lparr>tick := Suc (tick s)\<rparr>))"

definition get_embedding :: "env \<Rightarrow> string \<Rightarrow> state \<Rightarrow> vector outcome" where
  "get_embedding E text s =
     (case embedding E (tick s) text of
        None \<Rightarrow> Raised ModelCallError (s\<lparr>tick := Suc (tick s)\<rparr>)
      | Some v \<Rightarrow> Done v (s\<lparr>tick := Suc (tick s)\<rparr>))"

definition time_time :: "env \<Rightarrow> state \<Rightarrow> real \<times> state" where
  "time_time E s = (clock E (tick s), s\<lparr>tick := Suc (tick s)\<rparr>)"

text \<open>
  Modelled from the spec: \<^verbatim>\<open>add_to_json\<close> of \<^verbatim>\<open>app.utilities\<close> is not among the source
  files. It is the \<open>set(key, value)\<close> of the persistent key-value map store.
\<close>

definition add_to_json :: "('k \<rightharpoonup> 'v) \<Rightarrow> 'k \<Rightarrow> 'v \<Rightarrow> ('k \<rightharpoonup> 'v)" where
  "add_to_json m k v = m(k \<mapsto> v)"

text \<open>
  Modelled from the spec: \<^verbatim>\<open>remove_from_json\<close> of \<^verbatim>\<open>app.utilities\<close> is not among the
  source files. It is the \<open>delete(key)\<close> of the persistent key-value map store; a key
  that is absent is already deleted, which is no error.
\<close>

definition remove_from_json :: "('k \<rightharpoonup> 'v) \<Rightarrow> 'k \<Rightarrow> ('k \<rightharpoonup> 'v)" where
  "remove_from_json m k = m(k := None)"

section \<open>The document life cycle and the indexing pipeline\<close>

text \<open>
  \<^verbatim>\<open>remove_document_by_id\<close>. Both maps are read before anything is removed. The entry
  of the document in \<^verbatim>\<open>DOC_ID_TO_SOURCE_MAP\<close> and the entry of its source in
  \<^verbatim>\<open>SOURCE_TO_DOC_ID_MAP\<close> go if the document has a source; the excerpt records, the
  list of excerpt ids and the vectors go if the document has a list of excerpt ids,
  and the index is saved. The graph file is not touched.
\<close>

definition remove_document_by_id :: "string \<Rightarrow> state \<Rightarrow> state" where
  "remove_document_by_id d s =
     (let s1 = (case doc_id_to_source_map s d of
                  None \<Rightarrow> s
                | Some source \<Rightarrow>
                    s\<lparr>doc_id_to_source_map := remove_from_json (doc_id_to_source_map s) d,
                      source_to_doc_id_map := remove_from_json (source_to_doc_id_map s) source\<rparr>)
      in case doc_id_to_excerpt_ids s d of
           None \<Rightarrow> s1
         | Some excerpt_ids \<Rightarrow>
             s1\<lparr>excerpt_db := foldl remove_from_json (excerpt_db s1) excerpt_ids,
                doc_id_to_excerpt_ids := remove_from_json (doc_id_to_excerpt_ids s1) d,
                embeddings_db := delete excerpt_ids (embeddings_db s1),
                embeddings_file := delete excerpt_ids (embeddings_db s1)\<rparr>)"

definition add_document_maps :: "env \<Rightarrow> string \<Rightarrow> string \<Rightarrow> state \<Rightarrow> state" where
  "add_document_maps E source content s =
     (let d = make_hash E content ''doc_''
      in s\<lparr>source_to_doc_id_map := add_to_json (source_to_doc_id_map s) source d,
           doc_id_to_source_map := add_to_json (doc_id_to_source_map s) d source\<rparr>)"

definition get_excerpt_summary :: "env \<Rightarrow> string \<Rightarrow> string \<Rightarrow> state \<Rightarrow> string outcome" where
  "get_excerpt_summary E full_doc excerpt s =
     get_completion E (excerpt_summary_prompt E full_doc excerpt) s"

text \<open>
  The two writes of the loop body of \<^verbatim>\<open>embed_document\<close>: the upsert into the vector
  index and the excerpt record, each with its own reading of the clock.
\<close>

definition store_excerpt ::
  "env \<Rightarrow> string \<Rightarrow> nat \<Rightarrow> string \<Rightarrow> string \<Rightarrow> string \<Rightarrow> vector \<Rightarrow> state \<Rightarrow> state" where
  "store_excerpt E d i excerpt excerpt_id summary v s =
     (let (t1, s1) = time_time E s;
          s2 = s1\<lparr>embeddings_db :=
                 upsert (excerpt_id, \<lparr>v_vector = v, v_doc_id = d, v_inserted_at = t1\<rparr>)
                   (embeddings_db s1)\<rparr>;
          (t2, s3) = time_time E s2
      in s3\<lparr>excerpt_db :=
             add_to_json (excerpt_db s3) excerpt_id
               \<lparr>x_doc_id = d, x_doc_order_index = i, x_excerpt = excerpt,
                x_summary = summary, x_indexed_at = t2\<rparr>\<rparr>)"

text \<open>
  The loop of \<^verbatim>\<open>embed_document\<close> over \<^verbatim>\<open>enumerate(excerpts)\<close>: \<open>i\<close> is the index of the
  first excerpt left, \<open>excerpt_ids\<close> the ids appended so far. An exception of the
  summary or of the embedding call leaves the loop with the state as it is then.
\<close>

fun embed_excerpts ::
  "env \<Rightarrow> string \<Rightarrow> string \<Rightarrow> nat \<Rightarrow> string list \<Rightarrow> string list \<Rightarrow> state \<Rightarrow> string list outcome" where
  "embed_excerpts E content d i [] excerpt_ids s = Done excerpt_ids s"
| "embed_excerpts E content d i (excerpt # rest) excerpt_ids s =
     (let excerpt_id = make_hash E excerpt ''excerpt_id_''
      in case get_excerpt_summary E content excerpt s of
           Raised e s1 \<Rightarrow> Raised e s1
         | Done summary s1 \<Rightarrow>
             (case get_embedding E (excerpt @ [CHR 0x0A, CHR 0x0A] @ summary) s1 of
                Raised e s2 \<Rightarrow> Raised e s2
              | Done v s2 \<Rightarrow>
                  embed_excerpts E content d (Suc i) rest (excerpt_ids @ [excerpt_id])
                    (store_excerpt E d i excerpt excerpt_id summary v s2)))"

text \<open>
  \<^verbatim>\<open>embed_document\<close>: after the loop the index is saved and the list of excerpt ids is
  written under the document id. The chunker is called with its defaults.
\<close>

definition embed_document :: "env \<Rightarrow> string \<Rightarrow> string \<Rightarrow> state \<Rightarrow> unit outcome" where
  "embed_document E content d s =
     (case get_excerpts content 2000 200 of
        Inl e \<Rightarrow> Raised e s
      | Inr excerpts \<Rightarrow>
          (case embed_excerpts E content d 0 excerpts [] s of
             Raised e s1 \<Rightarrow> Raised e s1
           | Done excerpt_ids s1 \<Rightarrow>
               Done () (s1\<lparr>embeddings_file := embeddings_db s1,
                           doc_id_to_excerpt_ids :=
                             add_to_json (doc_id_to_excerpt_ids s1) d excerpt_ids\<rparr>)))"

text \<open>
  The body of \<^verbatim>\<open>for record in records\<close> in \<^verbatim>\<open>extract_entities\<close>: the record is split
  into fields, field 0 in lower case selects the kind, and a record with too few
  fields or of no known kind leaves the graph as it is.
\<close>

definition apply_record :: "graph \<Rightarrow> string \<Rightarrow> graph" where
  \<open>apply_record g record =
     (let fields = split_string_by_multi_markers record [''<|>'']
      in if fields = [] then g
         else let record_type = lower (fields ! 0)
              in if record_type = ''"entity"'' then
                   (if 4 \<le> length fields
                    then add_node g (fields ! 1)
                           [''category'' \<mapsto> fields ! 2, ''description'' \<mapsto> fields ! 3]
                    else g)
                 else if record_type = ''"relationship"'' then
                   (if 6 \<le> length fields
                    then add_edge g (fields ! 1) (fields ! 2)
                           [''description'' \<mapsto> fields ! 3, ''keywords'' \<mapsto> fields ! 4,
                            ''weight'' \<mapsto> fields ! 5]
                    else g)
                 else if record_type = ''"content_keywords"'' then
                   (if 2 \<le> length fields
                    then g\<lparr>g_attrs := (g_attrs g)(''content_keywords'' \<mapsto> fields ! 1)\<rparr>
                    else g)
                 else g)\<close>

text \<open>
  The first loop over the records: one layer of enclosing parentheses is removed
  (\<^verbatim>\<open>record[1:-1]\<close>) and the record is cleaned.
\<close>

definition clean_record :: "string \<Rightarrow> string" where
  "clean_record record =
     clean_str (if startswith record ''('' \<and> endswith record '')''
                then py_slice record 1 (- 1) else record)"

text \<open>
  What \<^verbatim>\<open>extract_entities\<close> does with the model's answer for one excerpt: the completion
  marker is removed, the rest is trimmed and split into records, and the records are
  applied to the graph in order.
\<close>

definition apply_result :: "graph \<Rightarrow> string \<Rightarrow> graph" where
  "apply_result g result =
     (let data_str = strip (replace result ''<|COMPLETE|>'' []);
          records = split_string_by_multi_markers data_str [''+|+'']
      in foldl apply_record g (map clean_record records))"

text \<open>The loop of \<^verbatim>\<open>extract_entities\<close> over the excerpts.\<close>

fun extract_excerpts :: "env \<Rightarrow> string list \<Rightarrow> graph \<Rightarrow> state \<Rightarrow> graph outcome" where
  "extract_excerpts E [] g s = Done g s"
| "extract_excerpts E (excerpt # rest) g s =
     (case get_completion E (get_extract_entities_prompt E excerpt) s of
        Raised e s1 \<Rightarrow> Raised e s1
      | Done result s1 \<Rightarrow> extract_excerpts E rest (apply_result g result) s1)"

text \<open>
  \<^verbatim>\<open>extract_entities\<close>: the graph is read from the file, or is the empty directed graph
  when the file is absent or cannot be read; after the loop it is written to the file.
\<close>

definition extract_entities :: "env \<Rightarrow> string \<Rightarrow> string \<Rightarrow> state \<Rightarrow> unit outcome" where
  "extract_entities E content d s =
     (case get_excerpts content 2000 200 of
        Inl e \<Rightarrow> Raised e s
      | Inr excerpts \<Rightarrow>
          (let g = (case kg_db s of GraphML g0 \<Rightarrow> g0 | Unreadable \<Rightarrow> DiGraph | NoFile \<Rightarrow> DiGraph)
           in case extract_excerpts E excerpts g s of
                Raised e s1 \<Rightarrow> Raised e s1
              | Done g1 s1 \<Rightarrow> Done () (s1\<lparr>kg_db := GraphML g1\<rparr>)))"

text \<open>
  \<^verbatim>\<open>embed_document(content, doc_id)\<close> followed by \<^verbatim>\<open>extract_entities(content, doc_id)\<close>,
  as both branches of \<^verbatim>\<open>import_documents\<close> run them.
\<close>

definition index_document :: "env \<Rightarrow> string \<Rightarrow> string \<Rightarrow> state \<Rightarrow> unit outcome" where
  "index_document E content d s =
     (case embed_document E content d s of
        Raised e s1 \<Rightarrow> Raised e s1
      | Done u s1 \<Rightarrow> extract_entities E content d s1)"

text \<open>
  \<^verbatim>\<open>import_documents\<close>, over the sources that \<^verbatim>\<open>get_docs\<close> lists, each with the content
  that \<^verbatim>\<open>read_file\<close> returns for it. An exception ends the pass.
\<close>

fun import_documents :: "env \<Rightarrow> (string \<times> string) list \<Rightarrow> state \<Rightarrow> unit outcome" where
  "import_documents E [] s = Done () s"
| "import_documents E ((source, content) # sources) s =
     (let d = make_hash E content ''doc_''
      in case source_to_doc_id_map s source of
           None \<Rightarrow>
             (case index_document E content d (add_document_maps E source content s) of
                Raised e s1 \<Rightarrow> Raised e s1
              | Done u s1 \<Rightarrow> import_documents E sources s1)
         | Some old_doc_id \<Rightarrow>
             if old_doc_id \<noteq> d then
               (case index_document E content d
                       (add_document_maps E source content (remove_document_by_id old_doc_id s)) of
                  Raised e s1 \<Rightarrow> Raised e s1
                | Done u s1 \<Rightarrow> import_documents E sources s1)
             else import_documents E sources s)"

section \<open>Runs of the program and the notions the properties use\<close>

text \<open>
  A new process opens the vector index from its storage file; the JSON maps and the
  graph are files and are as the last process left them.
\<close>

definition restart :: "state \<Rightarrow> state" where
  "restart s = s\<lparr>embeddings_db := embeddings_file s\<rparr>"

text \<open>
  What a user does: an import pass over the sources found, with their contents, the
  removal of a document, or the start of a new process. An import pass that raises
  leaves the state it had reached.
\<close>

datatype operation = Import "(string \<times> string) list" | Remove string | Restart

fun apply_operation :: "env \<Rightarrow> state \<Rightarrow> operation \<Rightarrow> state" where
  "apply_operation E s (Import docs) = state_of (import_documents E docs s)"
| "apply_operation E s (Remove d) = remove_document_by_id d s"
| "apply_operation E s Restart = restart s"

definition run :: "env \<Rightarrow> operation list \<Rightarrow> state \<Rightarrow> state" where
  "run E ops s = foldl (apply_operation E) s ops"

text \<open>
  Every entry of \<^verbatim>\<open>DOC_ID_TO_SOURCE_MAP\<close> has its mirror image in
  \<^verbatim>\<open>SOURCE_TO_DOC_ID_MAP\<close>.
\<close>

definition maps_linked :: "state \<Rightarrow> bool" where
  "maps_linked s =
     (\<forall>d source. doc_id_to_source_map s d = Some source \<longrightarrow>
                 source_to_doc_id_map s source = Some d)"

text \<open>
  The excerpt record, or the vector record, of id \<open>e\<close> is present and carries the
  document id \<open>d\<close>.
\<close>

definition tagged_excerpt :: "state \<Rightarrow> string \<Rightarrow> string \<Rightarrow> bool" where
  "tagged_excerpt s d e = (\<exists>r. excerpt_db s e = Some r \<and> x_doc_id r = d)"

definition tagged_vector :: "state \<Rightarrow> string \<Rightarrow> string \<Rightarrow> bool" where
  "tagged_vector s d e = (\<exists>r. map_of (embeddings_db s) e = Some r \<and> v_doc_id r = d)"

text \<open>
  The summary call or the embedding call of the loop body of \<^verbatim>\<open>embed_document\<close>
  raises for this excerpt in this state.
\<close>

definition excerpt_fails :: "env \<Rightarrow> string \<Rightarrow> string \<Rightarrow> state \<Rightarrow> bool" where
  "excerpt_fails E content excerpt s =
     (case get_excerpt_summary E content excerpt s of
        Raised e s1 \<Rightarrow> True
      | Done summary s1 \<Rightarrow>
          (case get_embedding E (excerpt @ [CHR 0x0A, CHR 0x0A] @ summary) s1 of
             Raised e s2 \<Rightarrow> True
           | Done v s2 \<Rightarrow> False))"

text \<open>
  A state with empty stores and no graph file, and an environment for concrete runs:
  the hash is the prefix followed by the content itself (so it never collides), the
  model answers every call with the empty text and the empty vector, the clock
  stands at 0, and each prompt is the excerpt.
\<close>

definition empty_state :: state where
  "empty_state =
     \<lparr>source_to_doc_id_map = Map.empty, doc_id_to_source_map = Map.empty,
      doc_id_to_excerpt_ids = Map.empty, excerpt_db = Map.empty,
      embeddings_db = [], embeddings_file = [], kg_db = NoFile, tick = 0\<rparr>"

definition plain_env :: env where
  "plain_env =
     \<lparr>make_hash = (\<lambda>content prefix. prefix @ content),
      completion = (\<lambda>t prompt. Some []),
      embedding = (\<lambda>t text. Some []),
      clock = (\<lambda>t. 0),
      excerpt_summary_prompt = (\<lambda>full_doc excerpt. excerpt),
      get_extract_entities_prompt = (\<lambda>excerpt. excerpt)\<rparr>"

text \<open>The state after one import pass over the single source \<^verbatim>\<open>a.txt\<close> with content \<^verbatim>\<open>x\<close>.\<close>

definition one_doc_state :: state where
  "one_doc_state = state_of (import_documents plain_env [(''a.txt'', ''x'')] empty_state)"

text \<open>
  An environment whose completion model raises at tick 4 and answers at every other
  tick: the first excerpt of a document embedded from tick 0 is processed, the summary
  call of the second raises, and later passes meet no failure.
\<close>

definition flaky_env :: env where
  "flaky_env = plain_env\<lparr>completion := (\<lambda>t prompt. if t = 4 then None else Some [])\<rparr>"

text \<open>
  The state a new process finds after an import pass over the single source
  \<^verbatim>\<open>a.txt\<close>, with 1801 times the character \<^verbatim>\<open>a\<close> as content, was cut short by the
  failure of \<open>flaky_env\<close>; and the state after one import pass over \<^verbatim>\<open>a.txt\<close> and
  \<^verbatim>\<open>b.txt\<close>, both with content \<^verbatim>\<open>x\<close>.
\<close>

definition cut_short_state :: state where
  "cut_short_state =
     restart (state_of (import_documents flaky_env
                          [(''a.txt'', replicate 1801 (CHR ''a''))] empty_state))"

definition twin_state :: state where
  "twin_state =
     state_of (import_documents plain_env [(''a.txt'', ''x''), (''b.txt'', ''x'')] empty_state)"

text \<open>
  A record that the extraction leg drops: it has no field, or field 0 in lower case is
  \<^verbatim>\<open>"entity"\<close> with fewer than 4 fields, \<^verbatim>\<open>"relationship"\<close> with fewer than 6,
  \<^verbatim>\<open>"content_keywords"\<close> with fewer than 2, or none of the three.
\<close>

definition malformed :: "string \<Rightarrow> bool" where
  \<open>malformed record =
     (let fields = split_string_by_multi_markers record [''<|>'']
      in fields = [] \<or>
         (lower (fields ! 0) = ''"entity"'' \<and> length fields < 4) \<or>
         (lower (fields ! 0) = ''"relationship"'' \<and> length fields < 6) \<or>
         (lower (fields ! 0) = ''"content_keywords"'' \<and> length fields < 2) \<or>
         (lower (fields ! 0) \<noteq> ''"entity"'' \<and> lower (fields ! 0) \<noteq> ''"relationship"'' \<and>
          lower (fields ! 0) \<noteq> ''"content_keywords"''))\<close>

text \<open>
  The model's answer of the spec's scenario B, the graph it stands for, and an
  environment whose completion model gives that answer to every prompt.
\<close>

definition scenario_B_response :: string where
  \<open>scenario_B_response =
     ''("entity"<|>"Rabbit"<|>"Animal"<|>"A small mammal")+|+("entity"<|>"Carrot"<|>"Food"<|>"A root vegetable")+|+("relationship"<|>"Rabbit"<|>"Carrot"<|>"eats"<|>"diet"<|>"0.9")<|COMPLETE|>''\<close>

definition scenario_B_graph :: graph where
  \<open>scenario_B_graph =
     \<lparr>g_nodes =
        [''"Rabbit"'' \<mapsto> [''category'' \<mapsto> ''"Animal"'', ''description'' \<mapsto> ''"A small mammal"''],
         ''"Carrot"'' \<mapsto> [''category'' \<mapsto> ''"Food"'', ''description'' \<mapsto> ''"A root vegetable"'']],
      g_edges =
        [(''"Rabbit"'', ''"Carrot"'') \<mapsto>
           [''description'' \<mapsto> ''"eats"'', ''keywords'' \<mapsto> ''"diet"'', ''weight'' \<mapsto> ''"0.9"'']],
      g_attrs = Map.empty\<rparr>\<close>

definition scenario_B_env :: env where
  "scenario_B_env = plain_env\<lparr>completion := (\<lambda>t prompt. Some scenario_B_response)\<rparr>"

section \<open>Properties of the chunker\<close>

declare get_excerpts_loop.simps [simp del]

lemma py_slice_window:
  "0 \<le> i \<Longrightarrow> 0 \<le> n \<Longrightarrow> py_slice xs i (i + n) = take (nat n) (drop (nat i) xs)"
  by (auto simp: py_slice_def Let_def min_def max_def)

lemma div_small: "0 < (s::int) \<Longrightarrow> a < s \<Longrightarrow> a div s \<le> 0"
  by (metis div_pos_pos_trivial div_neg_pos_less0 less_le not_le)

lemma iter_count_step:
  assumes "0 < (s::int)" "0 < d"
  shows "nat ((d + s - 1) div s) = Suc (nat ((d - s + s - 1) div s))"
proof -
  have "(d + s - 1) div s = (d - 1) div s + 1"
    using assms by (metis add.commute add_diff_eq div_add_self1 less_irrefl)
  moreover have "0 \<le> (d - 1) div s" using assms by (simp add: pos_imp_zdiv_nonneg_iff)
  ultimately show ?thesis by simp
qed

lemma get_excerpts_loop_closed:
  "0 < step \<Longrightarrow>
   get_excerpts_loop content n step i excerpts =
     excerpts @ map (\<lambda>k. py_slice content (i + int k * step) (i + int k * step + n))
                  [0..<nat ((int (length content) - i + step - 1) div step)]"
proof (induction content n step i excerpts rule: get_excerpts_loop.induct)
  case (1 content n step i excerpts)
  show ?case
  proof (cases "i < int (length content)")
    case False
    with "1.prems" have "(int (length content) - i + step - 1) div step \<le> 0"
      by (intro div_small) auto
    with False "1.prems" show ?thesis
      by (simp add: get_excerpts_loop.simps [of content n step i])
  next
    case True
    let ?d = "int (length content) - i"
    have cnt: "nat ((?d + step - 1) div step) = Suc (nat ((?d - step + step - 1) div step))"
      using iter_count_step [of step ?d] True "1.prems" by simp
    have ih: "get_excerpts_loop content n step (i + step) (excerpts @ [py_slice content i (i + n)]) =
       (excerpts @ [py_slice content i (i + n)]) @
       map (\<lambda>k. py_slice content (i + step + int k * step) (i + step + int k * step + n))
        [0..<nat ((int (length content) - (i + step) + step - 1) div step)]"
      using "1.IH" True "1.prems" by simp
    have shift: "(\<lambda>k. py_slice content (i + step + int k * step) (i + step + int k * step + n))
         = (\<lambda>k. py_slice content (i + int k * step) (i + int k * step + n)) \<circ> Suc"
      by (auto simp: fun_eq_iff algebra_simps)
    show ?thesis
      apply (subst get_excerpts_loop.simps)
      using True "1.prems" apply (simp only: if_True simp_thms ih)
      apply (subst cnt)
      apply (simp only: shift upt_conv_Cons [of 0] )
      apply (simp add: map_Suc_upt [symmetric] del: upt_Suc)
      done
  qed
qed

lemma get_excerpts_windows:
  assumes "0 \<le> overlap" "overlap < n"
  shows "get_excerpts content n overlap =
     Inr (map (\<lambda>k. take (nat n) (drop (k * nat (n - overlap)) content))
            [0..<(length content + nat (n - overlap) - 1) div nat (n - overlap)])"
proof -
  let ?step = "n - overlap"
  have pos: "0 < ?step" using assms by simp
  have cnt: "nat ((int (length content) - 0 + ?step - 1) div ?step)
       = (length content + nat ?step - 1) div nat ?step"
  proof -
    have "int (length content) + ?step - 1 = int (length content + nat ?step - 1)"
      using pos by simp
    then have "(int (length content) + ?step - 1) div ?step
         = int ((length content + nat ?step - 1) div nat ?step)"
      using pos by (simp add: zdiv_int)
    then show ?thesis by simp
  qed
  have sl: "py_slice content (0 + int k * ?step) (0 + int k * ?step + n)
       = take (nat n) (drop (k * nat ?step) content)" for k
  proof -
    have "nat (int k * ?step) = k * nat ?step" using pos by (simp add: nat_mult_distrib)
    with py_slice_window [of "int k * ?step" n content] assms pos show ?thesis by simp
  qed
  have "get_excerpts content n overlap = Inr (get_excerpts_loop content n ?step 0 [])"
    using pos by (simp add: get_excerpts_def Let_def)
  also have "get_excerpts_loop content n ?step 0 [] =
      map (\<lambda>k. py_slice content (0 + int k * ?step) (0 + int k * ?step + n))
        [0..<nat ((int (length content) - 0 + ?step - 1) div ?step)]"
    by (simp only: get_excerpts_loop_closed [OF pos] append_Nil)
  finally show ?thesis unfolding cnt sl .
qed

lemma ceiling_div_nat:
  assumes "0 < (k::nat)"
  shows "nat \<lceil>real m / real k\<rceil> = (m + k - 1) div k"
proof -
  let ?q = "(m + k - 1) div k"
  have "m + k - 1 = ?q * k + (m + k - 1) mod k" by simp
  moreover have "(m + k - 1) mod k < k" using assms by simp
  ultimately have 1: "m \<le> ?q * k" and 2: "?q * k < m + k" using assms by linarith+
  from 1 have "real m \<le> real (?q * k)" by (rule of_nat_mono)
  then have a: "real m / real k \<le> real ?q"
    using assms by (simp add: field_simps)
  from 2 have "real (?q * k) < real (m + k)" by (simp only: of_nat_less_iff)
  then have b: "real ?q - 1 < real m / real k"
    using assms by (simp add: field_simps)
  have "\<lceil>real m / real k\<rceil> = int ?q"
    by (rule ceiling_unique) (use a b in simp_all)
  then show ?thesis by simp
qed

lemma get_excerpts_short:
  assumes "0 < length c" "length c \<le> 1800"
  shows "get_excerpts c 2000 200 = Inr [c]"
proof -
  have "(length c + 1800 - 1) div 1800 = 1"
    using assms by (intro div_nat_eqI) (auto simp: Suc_le_eq)
  then show ?thesis
    using get_excerpts_windows [of 200 2000 c] assms by simp
qed

lemma get_excerpts_empty: "get_excerpts [] 2000 200 = Inr []"
  using get_excerpts_windows [of 200 2000 "[]"] by simp

lemma get_excerpts_two:
  "get_excerpts (replicate 1801 c) 2000 200 = Inr [replicate 1801 c, [c]]"
proof -
  have u: "[0..<2] = [0, 1::nat]" by (simp add: upt_rec)
  have "(length (replicate 1801 c) + nat (2000 - 200) - 1) div nat (2000 - 200) = 2"
    by simp
  with get_excerpts_windows [of 200 2000 "replicate 1801 c"] show ?thesis
    by (simp add: u)
qed

lemma get_excerpts_repeated:
  "get_excerpts (replicate 3800 c) 2000 200 =
     Inr [replicate 2000 c, replicate 2000 c, replicate 200 c]"
proof -
  have u: "[0..<3] = [0, 1, 2::nat]" by (simp add: upt_rec)
  have "(length (replicate 3800 c) + nat (2000 - 200) - 1) div nat (2000 - 200) = 3"
    by simp
  with get_excerpts_windows [of 200 2000 "replicate 3800 c"] show ?thesis
    by (simp add: u)
qed

text \<open>
  Claim C7, as amended. When \<open>overlap = n\<close> the call raises \<^verbatim>\<open>ValueError\<close> (the zero step
  of \<^verbatim>\<open>range\<close>) and returns no excerpts; when \<open>overlap > n\<close> nothing is raised and the
  call returns the empty sequence.
\<close>

theorem get_excerpts_degenerate:
  "(overlap = n \<longrightarrow> get_excerpts content n overlap = Inl ValueError) \<and>
   (n < overlap \<longrightarrow> get_excerpts content n overlap = Inr [])"
  by (simp add: get_excerpts_def Let_def get_excerpts_loop.simps)

theorem get_excerpts_degenerate_witness:
  "get_excerpts ''abc'' 2 2 = Inl ValueError \<and> get_excerpts ''abc'' 2 3 = Inr []"
  using get_excerpts_degenerate [of 2 2 "''abc''"] get_excerpts_degenerate [of 3 2 "''abc''"]
  by simp

text \<open>
  Claim C7 as stated fails: with window size 2 and overlap 3 the call is not rejected,
  it returns the empty sequence of excerpts.
\<close>

theorem get_excerpts_not_rejected:
  "get_excerpts ''abc'' 2 3 = Inr []"
  by (simp add: get_excerpts_def Let_def get_excerpts_loop.simps)

section \<open>What each step writes and what it leaves alone\<close>

lemma state_of_simps [simp]: "state_of (Done v s) = s" "state_of (Raised e s) = s"
  by (simp_all add: state_of_def)

lemmas call_defs = get_excerpt_summary_def get_completion_def get_embedding_def time_time_def

lemma store_excerpt_fields:
  "source_to_doc_id_map (store_excerpt E d i x k sm v s) = source_to_doc_id_map s"
  "doc_id_to_source_map (store_excerpt E d i x k sm v s) = doc_id_to_source_map s"
  "doc_id_to_excerpt_ids (store_excerpt E d i x k sm v s) = doc_id_to_excerpt_ids s"
  "embeddings_file (store_excerpt E d i x k sm v s) = embeddings_file s"
  "kg_db (store_excerpt E d i x k sm v s) = kg_db s"
  "tick (store_excerpt E d i x k sm v s) = Suc (Suc (tick s))"
  "excerpt_db (store_excerpt E d i x k sm v s) =
     (excerpt_db s)(k \<mapsto> \<lparr>x_doc_id = d, x_doc_order_index = i, x_excerpt = x,
                           x_summary = sm, x_indexed_at = clock E (Suc (tick s))\<rparr>)"
  "embeddings_db (store_excerpt E d i x k sm v s) =
     upsert (k, \<lparr>v_vector = v, v_doc_id = d, v_inserted_at = clock E (tick s)\<rparr>) (embeddings_db s)"
  by (simp_all add: store_excerpt_def time_time_def add_to_json_def)

lemma embed_excerpts_frame:
  "source_to_doc_id_map (state_of (embed_excerpts E c d i xs ids s)) = source_to_doc_id_map s \<and>
   doc_id_to_source_map (state_of (embed_excerpts E c d i xs ids s)) = doc_id_to_source_map s \<and>
   doc_id_to_excerpt_ids (state_of (embed_excerpts E c d i xs ids s)) = doc_id_to_excerpt_ids s \<and>
   embeddings_file (state_of (embed_excerpts E c d i xs ids s)) = embeddings_file s \<and>
   kg_db (state_of (embed_excerpts E c d i xs ids s)) = kg_db s"
  by (induction xs arbitrary: i ids s)
     (simp_all add: call_defs store_excerpt_fields Let_def split: option.splits)

lemma extract_excerpts_frame:
  "\<exists>t. state_of (extract_excerpts E xs g s) = s\<lparr>tick := t\<rparr>"
proof (induction xs arbitrary: g s)
  case Nil
  show ?case by (simp, rule exI [of _ "tick s"], simp)
next
  case (Cons x xs)
  show ?case
  proof (cases "completion E (tick s) (get_extract_entities_prompt E x)")
    case None
    then show ?thesis by (simp add: call_defs) blast
  next
    case (Some r)
    from Cons.IH [of "apply_result g r" "s\<lparr>tick := Suc (tick s)\<rparr>"]
    obtain t where "state_of (extract_excerpts E xs (apply_result g r) (s\<lparr>tick := Suc (tick s)\<rparr>))
        = s\<lparr>tick := Suc (tick s)\<rparr>\<lparr>tick := t\<rparr>" by blast
    with Some show ?thesis by (simp add: call_defs) blast
  qed
qed

lemma foldl_remove_from_json:
  "foldl remove_from_json m ks k = (if k \<in> set ks then None else m k)"
  by (induction ks arbitrary: m) (auto simp: remove_from_json_def)

lemma fst_set_delete: "fst ` set (delete ids db) = fst ` set db - set ids"
  by (force simp: delete_def)

lemma vector_query_subset:
  "fst ` set (vector_query similarity q top_k thr db) \<subseteq> fst ` set db"
proof -
  have "set (vector_query similarity q top_k thr db)
        \<subseteq> set (map (\<lambda>(k, r). (k, similarity q (v_vector r))) db)"
    unfolding vector_query_def
    by (metis (no_types, lifting) set_takeWhileD set_take_subset set_sort subsetI subsetD)
  then show ?thesis by force
qed

lemma in_set_delete [simp]:
  "(a, b) \<in> set (delete ids db) \<longleftrightarrow> (a, b) \<in> set db \<and> a \<notin> set ids"
  by (auto simp: delete_def)

lemma map_of_upsert: "map_of (upsert (k, r) db) = (map_of db)(k \<mapsto> r)"
  by (induction db) (auto simp: fun_eq_iff)

lemma keys_upsert:
  "map fst (upsert (k, r) db) = (if k \<in> fst ` set db then map fst db else map fst db @ [k])"
  by (induction db) force+

lemma embed_excerpts_Done:
  "embed_excerpts E c d i xs ids s = Done ids' s' \<Longrightarrow>
   ids' = ids @ map (\<lambda>x. make_hash E x ''excerpt_id_'') xs \<and>
   dom (excerpt_db s') = dom (excerpt_db s) \<union> (\<lambda>x. make_hash E x ''excerpt_id_'') ` set xs \<and>
   fst ` set (embeddings_db s') =
     fst ` set (embeddings_db s) \<union> (\<lambda>x. make_hash E x ''excerpt_id_'') ` set xs \<and>
   (distinct (map fst (embeddings_db s)) \<longrightarrow> distinct (map fst (embeddings_db s'))) \<and>
   (\<forall>e. tagged_excerpt s d e \<or> e \<in> (\<lambda>x. make_hash E x ''excerpt_id_'') ` set xs
        \<longrightarrow> tagged_excerpt s' d e) \<and>
   (\<forall>e. tagged_vector s d e \<or> e \<in> (\<lambda>x. make_hash E x ''excerpt_id_'') ` set xs
        \<longrightarrow> tagged_vector s' d e)"
proof (induction xs arbitrary: i ids s)
  case Nil
  then show ?case by simp
next
  case (Cons x xs)
  let ?h = "\<lambda>x. make_hash E x ''excerpt_id_''"
  from Cons.prems obtain sm v where
    rec: "embed_excerpts E c d (Suc i) xs (ids @ [?h x])
            (store_excerpt E d i x (?h x) sm v (s\<lparr>tick := Suc (Suc (tick s))\<rparr>)) = Done ids' s'"
    by (auto simp: call_defs Let_def split: option.splits)
  define s6 where "s6 = store_excerpt E d i x (?h x) sm v (s\<lparr>tick := Suc (Suc (tick s))\<rparr>)"
  note ih = Cons.IH [OF rec [folded s6_def]]
  have e6: "tagged_excerpt s d e \<or> e = ?h x \<Longrightarrow> tagged_excerpt s6 d e" for e
    by (auto simp: tagged_excerpt_def s6_def store_excerpt_fields)
  have v6: "tagged_vector s d e \<or> e = ?h x \<Longrightarrow> tagged_vector s6 d e" for e
    by (auto simp: tagged_vector_def s6_def map_of_upsert store_excerpt_fields)
  have "set (map fst (embeddings_db s6)) = insert (?h x) (set (map fst (embeddings_db s)))"
    unfolding s6_def store_excerpt_fields keys_upsert by auto
  then have k6: "fst ` set (embeddings_db s6) = insert (?h x) (fst ` set (embeddings_db s))"
    by simp
  have d6: "distinct (map fst (embeddings_db s)) \<Longrightarrow> distinct (map fst (embeddings_db s6))"
    unfolding s6_def store_excerpt_fields keys_upsert by auto
  have x6: "dom (excerpt_db s6) = insert (?h x) (dom (excerpt_db s))"
    by (simp add: s6_def store_excerpt_fields)
  show ?case
    using ih e6 v6 d6 unfolding k6 x6 by simp
qed

lemma embed_document_frame:
  "source_to_doc_id_map (state_of (embed_document E c d s)) = source_to_doc_id_map s \<and>
   doc_id_to_source_map (state_of (embed_document E c d s)) = doc_id_to_source_map s \<and>
   kg_db (state_of (embed_document E c d s)) = kg_db s"
proof (cases "get_excerpts c 2000 200")
  case (Inl e)
  then show ?thesis by (simp add: embed_document_def)
next
  case (Inr xs)
  show ?thesis
    using embed_excerpts_frame [of E c d 0 xs "[]" s] Inr
    by (cases "embed_excerpts E c d 0 xs [] s") (simp_all add: embed_document_def)
qed

lemma extract_entities_frame:
  "\<exists>t k. state_of (extract_entities E c d s) = s\<lparr>tick := t, kg_db := k\<rparr>"
proof (cases "get_excerpts c 2000 200")
  case (Inl e)
  have "state_of (extract_entities E c d s) = s\<lparr>tick := tick s, kg_db := kg_db s\<rparr>"
    using Inl by (simp add: extract_entities_def)
  then show ?thesis by blast
next
  case (Inr xs)
  define g where "g = (case kg_db s of GraphML g0 \<Rightarrow> g0 | Unreadable \<Rightarrow> DiGraph | NoFile \<Rightarrow> DiGraph)"
  obtain t where t: "state_of (extract_excerpts E xs g s) = s\<lparr>tick := t\<rparr>"
    using extract_excerpts_frame by blast
  show ?thesis
  proof (cases "extract_excerpts E xs g s")
    case (Done g1 s1)
    with t have "s1 = s\<lparr>tick := t\<rparr>" by simp
    with Done Inr have "state_of (extract_entities E c d s) = s\<lparr>tick := t, kg_db := GraphML g1\<rparr>"
      by (simp add: extract_entities_def g_def)
    then show ?thesis by blast
  next
    case (Raised e s1)
    with t have "s1 = s\<lparr>tick := t\<rparr>" by simp
    with Raised Inr have "state_of (extract_entities E c d s) = s\<lparr>tick := t, kg_db := kg_db s\<rparr>"
      by (simp add: extract_entities_def g_def)
    then show ?thesis by blast
  qed
qed

lemma index_document_maps:
  "source_to_doc_id_map (state_of (index_document E c d s)) = source_to_doc_id_map s \<and>
   doc_id_to_source_map (state_of (index_document E c d s)) = doc_id_to_source_map s"
proof (cases "embed_document E c d s")
  case (Raised e s1)
  with embed_document_frame [of E c d s] show ?thesis by (simp add: index_document_def)
next
  case (Done u s1)
  obtain t k where "state_of (extract_entities E c d s1) = s1\<lparr>tick := t, kg_db := k\<rparr>"
    using extract_entities_frame by blast
  with Done embed_document_frame [of E c d s] show ?thesis by (simp add: index_document_def)
qed

lemma maps_linked_cong:
  "source_to_doc_id_map s' = source_to_doc_id_map s \<Longrightarrow>
   doc_id_to_source_map s' = doc_id_to_source_map s \<Longrightarrow> maps_linked s' = maps_linked s"
  by (simp add: maps_linked_def)

lemma remove_document_by_id_maps:
  "doc_id_to_source_map (remove_document_by_id d s) = (doc_id_to_source_map s)(d := None)"
  "source_to_doc_id_map (remove_document_by_id d s) =
     (case doc_id_to_source_map s d of None \<Rightarrow> source_to_doc_id_map s
      | Some source \<Rightarrow> (source_to_doc_id_map s)(source := None))"
  by (auto simp: remove_document_by_id_def remove_from_json_def Let_def fun_eq_iff
      split: option.splits)

lemma add_document_maps_maps:
  "source_to_doc_id_map (add_document_maps E source c s) =
     (source_to_doc_id_map s)(source \<mapsto> make_hash E c ''doc_'')"
  "doc_id_to_source_map (add_document_maps E source c s) =
     (doc_id_to_source_map s)(make_hash E c ''doc_'' \<mapsto> source)"
  by (simp_all add: add_document_maps_def add_to_json_def Let_def)

lemma maps_linked_remove:
  assumes "maps_linked s"
  shows "maps_linked (remove_document_by_id d s)"
proof (cases "doc_id_to_source_map s d")
  case None
  with assms show ?thesis
    unfolding maps_linked_def remove_document_by_id_maps by simp
next
  case (Some src)
  have "source_to_doc_id_map s src' = Some d' \<and> src' \<noteq> src"
    if "d' \<noteq> d" "doc_id_to_source_map s d' = Some src'" for d' src'
  proof -
    from assms that have a: "source_to_doc_id_map s src' = Some d'"
      by (simp add: maps_linked_def)
    from assms Some have "source_to_doc_id_map s src = Some d"
      by (simp add: maps_linked_def)
    with a that(1) show ?thesis by auto
  qed
  with Some show ?thesis
    unfolding maps_linked_def remove_document_by_id_maps by simp
qed

lemma maps_linked_add:
  assumes "maps_linked s"
    and "\<forall>d. doc_id_to_source_map s d \<noteq> Some source \<or> d = make_hash E c ''doc_''"
  shows "maps_linked (add_document_maps E source c s)"
proof -
  have "((source_to_doc_id_map s)(source \<mapsto> make_hash E c ''doc_'')) src = Some d"
    if "((doc_id_to_source_map s)(make_hash E c ''doc_'' \<mapsto> source)) d = Some src" for d src
  proof (cases "d = make_hash E c ''doc_''")
    case True
    with that show ?thesis by simp
  next
    case False
    with that have d: "doc_id_to_source_map s d = Some src" by simp
    with assms(2) False have "src \<noteq> source" by blast
    moreover from d assms(1) have "source_to_doc_id_map s src = Some d"
      by (simp add: maps_linked_def)
    ultimately show ?thesis by simp
  qed
  then show ?thesis
    unfolding maps_linked_def add_document_maps_maps by blast
qed

lemma maps_linked_new:
  assumes "maps_linked s" "source_to_doc_id_map s source = None"
  shows "maps_linked (add_document_maps E source c s)"
proof (rule maps_linked_add [OF assms(1)])
  show "\<forall>d. doc_id_to_source_map s d \<noteq> Some source \<or> d = make_hash E c ''doc_''"
  proof (intro allI)
    fix d
    show "doc_id_to_source_map s d \<noteq> Some source \<or> d = make_hash E c ''doc_''"
    proof (cases "doc_id_to_source_map s d = Some source")
      case True
      with assms(1) have "source_to_doc_id_map s source = Some d" by (simp add: maps_linked_def)
      with assms(2) show ?thesis by simp
    next
      case False
      then show ?thesis by simp
    qed
  qed
qed

lemma maps_linked_update:
  assumes "maps_linked s" "source_to_doc_id_map s source = Some old"
  shows "maps_linked (add_document_maps E source c (remove_document_by_id old s))"
proof (rule maps_linked_add [OF maps_linked_remove [OF assms(1)]])
  show "\<forall>d. doc_id_to_source_map (remove_document_by_id old s) d \<noteq> Some source
            \<or> d = make_hash E c ''doc_''"
  proof (intro allI)
    fix d
    show "doc_id_to_source_map (remove_document_by_id old s) d \<noteq> Some source
            \<or> d = make_hash E c ''doc_''"
    proof (cases "d = old")
      case True
      then show ?thesis by (simp add: remove_document_by_id_maps)
    next
      case False
      have "doc_id_to_source_map s d \<noteq> Some source"
      proof
        assume "doc_id_to_source_map s d = Some source"
        with assms(1) have "source_to_doc_id_map s source = Some d" by (simp add: maps_linked_def)
        with assms(2) False show False by simp
      qed
      with False show ?thesis by (simp add: remove_document_by_id_maps)
    qed
  qed
qed

lemma maps_linked_index: "maps_linked (state_of (index_document E c d s)) = maps_linked s"
  by (rule maps_linked_cong) (simp_all add: index_document_maps)

lemma maps_linked_import:
  "maps_linked s \<Longrightarrow> maps_linked (state_of (import_documents E docs s))"
proof (induction docs arbitrary: s)
  case Nil
  then show ?case by simp
next
  case (Cons p docs)
  obtain source c where p: "p = (source, c)" by (cases p)
  let ?d = "make_hash E c ''doc_''"
  show ?case
  proof (cases "source_to_doc_id_map s source")
    case None
    let ?s2 = "add_document_maps E source c s"
    have l2: "maps_linked ?s2" using Cons.prems None by (rule maps_linked_new)
    show ?thesis
    proof (cases "index_document E c ?d ?s2")
      case (Done u s1)
      with maps_linked_index [of E c ?d ?s2] l2 have "maps_linked s1" by simp
      from Cons.IH [OF this] Done None show ?thesis by (simp add: p)
    next
      case (Raised e s1)
      with maps_linked_index [of E c ?d ?s2] l2 have "maps_linked s1" by simp
      with Raised None show ?thesis by (simp add: p)
    qed
  next
    case (Some old)
    show ?thesis
    proof (cases "old = ?d")
      case True
      with Some Cons show ?thesis by (simp add: p)
    next
      case False
      let ?s2 = "add_document_maps E source c (remove_document_by_id old s)"
      have l2: "maps_linked ?s2" using Cons.prems Some by (rule maps_linked_update)
      show ?thesis
      proof (cases "index_document E c ?d ?s2")
        case (Done u s1)
        with maps_linked_index [of E c ?d ?s2] l2 have "maps_linked s1" by simp
        from Cons.IH [OF this] Done Some False show ?thesis by (simp add: p)
      next
        case (Raised e s1)
        with maps_linked_index [of E c ?d ?s2] l2 have "maps_linked s1" by simp
        with Raised Some False show ?thesis by (simp add: p)
      qed
    qed
  qed
qed

lemma remove_document_by_id_stores:
  "doc_id_to_excerpt_ids (remove_document_by_id d s) = (doc_id_to_excerpt_ids s)(d := None)"
  "excerpt_db (remove_document_by_id d s) e =
     (case doc_id_to_excerpt_ids s d of None \<Rightarrow> excerpt_db s e
      | Some ids \<Rightarrow> if e \<in> set ids then None else excerpt_db s e)"
  "embeddings_db (remove_document_by_id d s) =
     (case doc_id_to_excerpt_ids s d of None \<Rightarrow> embeddings_db s
      | Some ids \<Rightarrow> delete ids (embeddings_db s))"
  "embeddings_file (remove_document_by_id d s) =
     (case doc_id_to_excerpt_ids s d of None \<Rightarrow> embeddings_file s
      | Some ids \<Rightarrow> delete ids (embeddings_db s))"
  "kg_db (remove_document_by_id d s) = kg_db s"
  "tick (remove_document_by_id d s) = tick s"
  by (auto simp: remove_document_by_id_def remove_from_json_def foldl_remove_from_json
      Let_def fun_eq_iff split: option.splits)

lemma add_document_maps_stores:
  "doc_id_to_excerpt_ids (add_document_maps E source c s) = doc_id_to_excerpt_ids s"
  "excerpt_db (add_document_maps E source c s) = excerpt_db s"
  "embeddings_db (add_document_maps E source c s) = embeddings_db s"
  "embeddings_file (add_document_maps E source c s) = embeddings_file s"
  "kg_db (add_document_maps E source c s) = kg_db s"
  "tick (add_document_maps E source c s) = tick s"
  by (simp_all add: add_document_maps_def Let_def)

lemma embed_document_Done:
  assumes "embed_document E c d s = Done u s'"
  shows "\<exists>xs. get_excerpts c 2000 200 = Inr xs \<and>
     doc_id_to_excerpt_ids s' =
       (doc_id_to_excerpt_ids s)(d \<mapsto> map (\<lambda>x. make_hash E x ''excerpt_id_'') xs) \<and>
     embeddings_file s' = embeddings_db s' \<and>
     fst ` set (embeddings_db s') =
       fst ` set (embeddings_db s) \<union> (\<lambda>x. make_hash E x ''excerpt_id_'') ` set xs \<and>
     dom (excerpt_db s') = dom (excerpt_db s) \<union> (\<lambda>x. make_hash E x ''excerpt_id_'') ` set xs \<and>
     (distinct (map fst (embeddings_db s)) \<longrightarrow> distinct (map fst (embeddings_db s'))) \<and>
     (\<forall>x \<in> set xs. tagged_excerpt s' d (make_hash E x ''excerpt_id_'') \<and>
                     tagged_vector s' d (make_hash E x ''excerpt_id_''))"
proof -
  from assms obtain xs where xs: "get_excerpts c 2000 200 = Inr xs"
    by (cases "get_excerpts c 2000 200") (simp_all add: embed_document_def)
  from assms xs obtain ids s1 where
    loop: "embed_excerpts E c d 0 xs [] s = Done ids s1" and
    s': "s' = s1\<lparr>embeddings_file := embeddings_db s1,
                 doc_id_to_excerpt_ids := add_to_json (doc_id_to_excerpt_ids s1) d ids\<rparr>"
    by (cases "embed_excerpts E c d 0 xs [] s") (auto simp: embed_document_def)
  note facts = embed_excerpts_Done [OF loop]
  have fr: "doc_id_to_excerpt_ids s1 = doc_id_to_excerpt_ids s"
    using embed_excerpts_frame [of E c d 0 xs "[]" s] loop by simp
  have tg: "tagged_excerpt s' d e = tagged_excerpt s1 d e" "tagged_vector s' d e = tagged_vector s1 d e" for e
    by (simp_all add: s' tagged_excerpt_def tagged_vector_def)
  from facts have "\<forall>x \<in> set xs. tagged_excerpt s1 d (make_hash E x ''excerpt_id_'') \<and>
                     tagged_vector s1 d (make_hash E x ''excerpt_id_'')"
    by blast
  with facts fr xs show ?thesis
    by (simp add: tg) (simp add: s' add_to_json_def)
qed

lemma embed_document_d2e:
  "doc_id_to_excerpt_ids (state_of (embed_document E c d s)) k = doc_id_to_excerpt_ids s k \<or> k = d"
proof (cases "embed_document E c d s")
  case (Done u s')
  from embed_document_Done [OF Done] show ?thesis using Done by auto
next
  case (Raised e s')
  show ?thesis
  proof (cases "get_excerpts c 2000 200")
    case (Inl e')
    with Raised show ?thesis by (simp add: embed_document_def)
  next
    case (Inr xs)
    with Raised have "s' = state_of (embed_excerpts E c d 0 xs [] s)"
      by (cases "embed_excerpts E c d 0 xs [] s") (simp_all add: embed_document_def)
    with embed_excerpts_frame [of E c d 0 xs "[]" s] Raised show ?thesis by simp
  qed
qed

lemma extract_entities_fields:
  "doc_id_to_excerpt_ids (state_of (extract_entities E c d s)) = doc_id_to_excerpt_ids s"
  "excerpt_db (state_of (extract_entities E c d s)) = excerpt_db s"
  "embeddings_db (state_of (extract_entities E c d s)) = embeddings_db s"
  "embeddings_file (state_of (extract_entities E c d s)) = embeddings_file s"
  "source_to_doc_id_map (state_of (extract_entities E c d s)) = source_to_doc_id_map s"
  "doc_id_to_source_map (state_of (extract_entities E c d s)) = doc_id_to_source_map s"
  using extract_entities_frame [of E c d s] by auto

lemma index_document_d2e:
  "doc_id_to_excerpt_ids (state_of (index_document E c d s)) k = doc_id_to_excerpt_ids s k \<or> k = d"
proof (cases "embed_document E c d s")
  case (Raised e s1)
  with embed_document_d2e [of E c d s k] show ?thesis by (simp add: index_document_def)
next
  case (Done u s1)
  with embed_document_d2e [of E c d s k] show ?thesis
    by (simp add: index_document_def extract_entities_fields)
qed

lemma index_document_Done:
  assumes "index_document E c d s = Done u s'"
  shows "\<exists>xs. get_excerpts c 2000 200 = Inr xs \<and>
     doc_id_to_excerpt_ids s' =
       (doc_id_to_excerpt_ids s)(d \<mapsto> map (\<lambda>x. make_hash E x ''excerpt_id_'') xs) \<and>
     embeddings_file s' = embeddings_db s' \<and>
     fst ` set (embeddings_db s') =
       fst ` set (embeddings_db s) \<union> (\<lambda>x. make_hash E x ''excerpt_id_'') ` set xs \<and>
     dom (excerpt_db s') = dom (excerpt_db s) \<union> (\<lambda>x. make_hash E x ''excerpt_id_'') ` set xs \<and>
     (distinct (map fst (embeddings_db s)) \<longrightarrow> distinct (map fst (embeddings_db s'))) \<and>
     (\<forall>x \<in> set xs. tagged_excerpt s' d (make_hash E x ''excerpt_id_'') \<and>
                     tagged_vector s' d (make_hash E x ''excerpt_id_''))"
proof -
  from assms obtain u1 s1 where e: "embed_document E c d s = Done u1 s1"
    and x: "extract_entities E c d s1 = Done u s'"
    by (cases "embed_document E c d s") (simp_all add: index_document_def)
  from x have s': "s' = state_of (extract_entities E c d s1)" by simp
  have tg: "tagged_excerpt s' d e = tagged_excerpt s1 d e" "tagged_vector s' d e = tagged_vector s1 d e" for e
    by (simp_all add: s' tagged_excerpt_def tagged_vector_def extract_entities_fields)
  from embed_document_Done [OF e] show ?thesis
    by (simp add: tg) (simp add: s' extract_entities_fields)
qed

lemma maps_linked_run: "maps_linked s \<Longrightarrow> maps_linked (run E ops s)"
  unfolding run_def
proof (induction ops arbitrary: s)
  case Nil
  then show ?case by simp
next
  case (Cons op ops)
  have "maps_linked (apply_operation E s op)"
  proof (cases op)
    case (Import docs)
    with Cons.prems show ?thesis by (simp add: maps_linked_import)
  next
    case (Remove d)
    with Cons.prems show ?thesis by (simp add: maps_linked_remove)
  next
    case Restart
    have "maps_linked (restart s) = maps_linked s"
      by (rule maps_linked_cong) (simp_all add: restart_def)
    with Cons.prems Restart show ?thesis by simp
  qed
  from Cons.IH [OF this] show ?case by simp
qed

section \<open>Concrete runs\<close>

lemma apply_result_empty: "apply_result g [] = g"
  by (simp add: apply_result_def replace_def strip_def split_string_by_multi_markers_def)

lemmas run_defs =
  index_document_def embed_document_def extract_entities_def get_excerpts_short call_defs
  store_excerpt_def plain_env_def empty_state_def add_to_json_def add_document_maps_def
  Let_def apply_result_empty DiGraph_def

lemma one_doc_state_eq:
  "one_doc_state =
     \<lparr>source_to_doc_id_map = [''a.txt'' \<mapsto> ''doc_x''],
      doc_id_to_source_map = [''doc_x'' \<mapsto> ''a.txt''],
      doc_id_to_excerpt_ids = [''doc_x'' \<mapsto> [''excerpt_id_x'']],
      excerpt_db =
        [''excerpt_id_x'' \<mapsto>
           \<lparr>x_doc_id = ''doc_x'', x_doc_order_index = 0, x_excerpt = ''x'',
            x_summary = [], x_indexed_at = 0\<rparr>],
      embeddings_db =
        [(''excerpt_id_x'', \<lparr>v_vector = [], v_doc_id = ''doc_x'', v_inserted_at = 0\<rparr>)],
      embeddings_file =
        [(''excerpt_id_x'', \<lparr>v_vector = [], v_doc_id = ''doc_x'', v_inserted_at = 0\<rparr>)],
      kg_db = GraphML \<lparr>g_nodes = Map.empty, g_edges = Map.empty, g_attrs = Map.empty\<rparr>,
      tick = 5\<rparr>"
  by (simp add: one_doc_state_def run_defs)

section \<open>The document life cycle\<close>

text \<open>
  Claim C2. A source whose content hash is the document id stored for it is skipped:
  the import pass over that source alone returns the state it was given, with every
  map, every excerpt record and the vector index as they were, and in a longer pass
  the source contributes nothing.
\<close>

theorem import_unchanged_noop:
  "source_to_doc_id_map s source = Some (make_hash E content ''doc_'') \<Longrightarrow>
   import_documents E [(source, content)] s = Done () s \<and>
   import_documents E ((source, content) # sources) s = import_documents E sources s"
  by simp

theorem import_unchanged_noop_witness:
  "source_to_doc_id_map one_doc_state ''a.txt'' = Some (make_hash plain_env ''x'' ''doc_'') \<and>
   import_documents plain_env [(''a.txt'', ''x'')] one_doc_state = Done () one_doc_state"
proof -
  have h: "source_to_doc_id_map one_doc_state ''a.txt'' = Some (make_hash plain_env ''x'' ''doc_'')"
    by (simp add: one_doc_state_eq plain_env_def)
  from import_unchanged_noop [OF h, of "[]"] h show ?thesis by simp
qed

text \<open>
  Claim C3, as amended. Removing a document id deletes its entry in the doc-id to
  source map, the entry in the source to doc-id map of the source recorded there for
  it, and its entry in the doc-id to excerpt-ids map; every excerpt id listed for it
  loses its excerpt record and its record in the vector index, in the process and in
  the saved file, so that no vector query, whatever the similarity, the query vector,
  \<open>top_k\<close> and the threshold, returns it. The operation has no error result, and a
  document id absent from both maps leaves the state as it is.
\<close>

theorem remove_document_by_id_correct:
  "doc_id_to_source_map (remove_document_by_id d s) d = None \<and>
   doc_id_to_excerpt_ids (remove_document_by_id d s) d = None \<and>
   (\<forall>source. doc_id_to_source_map s d = Some source \<longrightarrow>
      source_to_doc_id_map (remove_document_by_id d s) source = None) \<and>
   (\<forall>excerpt_ids. doc_id_to_excerpt_ids s d = Some excerpt_ids \<longrightarrow>
      (\<forall>e \<in> set excerpt_ids.
         excerpt_db (remove_document_by_id d s) e = None \<and>
         e \<notin> fst ` set (embeddings_db (remove_document_by_id d s)) \<and>
         e \<notin> fst ` set (embeddings_file (remove_document_by_id d s)) \<and>
         (\<forall>similarity q top_k thr.
            e \<notin> fst ` set (vector_query similarity q top_k thr
                              (embeddings_db (remove_document_by_id d s)))))) \<and>
   (doc_id_to_source_map s d = None \<and> doc_id_to_excerpt_ids s d = None \<longrightarrow>
      remove_document_by_id d s = s)"
proof -
  have q: "e \<notin> fst ` set db \<Longrightarrow> e \<notin> fst ` set (vector_query similarity q top_k thr db)"
    for e db similarity q top_k thr
    using vector_query_subset [of similarity q top_k thr db] by blast
  show ?thesis
    by (auto simp: remove_document_by_id_def remove_from_json_def foldl_remove_from_json
        fst_set_delete Let_def intro!: q split: option.splits)
qed

theorem remove_document_by_id_correct_witness:
  "doc_id_to_source_map one_doc_state ''doc_x'' = Some ''a.txt'' \<and>
   doc_id_to_excerpt_ids one_doc_state ''doc_x'' = Some [''excerpt_id_x''] \<and>
   ''excerpt_id_x'' \<in> set [''excerpt_id_x''] \<and>
   source_to_doc_id_map (remove_document_by_id ''doc_x'' one_doc_state) ''a.txt'' = None \<and>
   excerpt_db (remove_document_by_id ''doc_x'' one_doc_state) ''excerpt_id_x'' = None \<and>
   ''excerpt_id_x'' \<notin> fst ` set (embeddings_db (remove_document_by_id ''doc_x'' one_doc_state)) \<and>
   doc_id_to_source_map empty_state ''doc_x'' = None \<and>
   doc_id_to_excerpt_ids empty_state ''doc_x'' = None \<and>
   remove_document_by_id ''doc_x'' empty_state = empty_state"
proof -
  have h1: "doc_id_to_source_map one_doc_state ''doc_x'' = Some ''a.txt''"
    and h2: "doc_id_to_excerpt_ids one_doc_state ''doc_x'' = Some [''excerpt_id_x'']"
    by (simp_all add: one_doc_state_eq)
  have h3: "doc_id_to_source_map empty_state ''doc_x'' = None"
    and h4: "doc_id_to_excerpt_ids empty_state ''doc_x'' = None"
    by (simp_all add: empty_state_def)
  from remove_document_by_id_correct [of "''doc_x''" one_doc_state] h1 h2
  have "source_to_doc_id_map (remove_document_by_id ''doc_x'' one_doc_state) ''a.txt'' = None \<and>
     excerpt_db (remove_document_by_id ''doc_x'' one_doc_state) ''excerpt_id_x'' = None \<and>
     ''excerpt_id_x'' \<notin> fst ` set (embeddings_db (remove_document_by_id ''doc_x'' one_doc_state))"
    by simp
  moreover from remove_document_by_id_correct [of "''doc_x''" empty_state] h3 h4
  have "remove_document_by_id ''doc_x'' empty_state = empty_state" by simp
  ultimately show ?thesis using h1 h2 h3 h4 by simp
qed

lemma twin_state_maps:
  "source_to_doc_id_map twin_state = [''a.txt'' \<mapsto> ''doc_x'', ''b.txt'' \<mapsto> ''doc_x'']"
  "doc_id_to_source_map twin_state = [''doc_x'' \<mapsto> ''b.txt'']"
  by (simp_all add: twin_state_def run_defs)

text \<open>
  Claim C3 as stated fails for the source to doc-id map. After one import pass over
  \<^verbatim>\<open>a.txt\<close> and \<^verbatim>\<open>b.txt\<close>, both with content \<^verbatim>\<open>x\<close>, the document id \<^verbatim>\<open>doc_x\<close> has
  \<^verbatim>\<open>b.txt\<close> as its recorded source; removing \<^verbatim>\<open>doc_x\<close> leaves the entry of \<^verbatim>\<open>a.txt\<close>,
  which still maps to \<^verbatim>\<open>doc_x\<close>.
\<close>

theorem removal_keeps_twin_entry:
  "source_to_doc_id_map twin_state ''a.txt'' = Some ''doc_x'' \<and>
   doc_id_to_source_map twin_state ''doc_x'' = Some ''b.txt'' \<and>
   source_to_doc_id_map (remove_document_by_id ''doc_x'' twin_state) ''a.txt'' = Some ''doc_x''"
  by (simp add: twin_state_maps remove_document_by_id_maps)

text \<open>
  Claim C9. The removal of a document leaves the graph file as it is, and so does the
  removal step of an update: the state that the indexing of the new content
  starts from has the graph file of the state before the update.
\<close>

theorem removal_leaves_graph:
  "kg_db (remove_document_by_id d s) = kg_db s \<and>
   kg_db (add_document_maps E source content (remove_document_by_id d s)) = kg_db s"
  by (simp add: remove_document_by_id_stores add_document_maps_stores)

text \<open>
  Claim C1, as amended. Let a source at the head of an import pass be in the source to
  doc-id map with a document id other than the hash of its new content. Its update is
  the indexing \<open>r\<close> of the new content in the state \<open>s2\<close> reached by first removing the
  old document (\<open>s1\<close>) and then recording the two map entries of the new one; the pass
  goes on with the other sources from the state that \<open>r\<close> returns, or ends where \<open>r\<close>
  raises. In \<open>s1\<close> the old document id has no entry in the doc-id to source map nor in
  the doc-id to excerpt-ids map, the source recorded for it has no entry in the source
  to doc-id map, and every excerpt id listed for it has neither an excerpt record nor
  a vector. When the update of the source ends, whether the indexing returned or
  raised, the source maps to the new document id and back, and the old id has no
  entry: this is the state handed to the rest of the pass. When the indexing returned,
  the new id lists the ids of the excerpts of the new content, each with an excerpt
  record and a vector that carry the new id.
\<close>

theorem import_update_correct:
  assumes "source_to_doc_id_map s source = Some old_doc_id"
    and "old_doc_id \<noteq> make_hash E content ''doc_''"
  shows
   "(let d = make_hash E content ''doc_'';
         s1 = remove_document_by_id old_doc_id s;
         s2 = add_document_maps E source content s1;
         r = index_document E content d s2
     in import_documents E ((source, content) # sources) s =
          (case r of Raised e s' \<Rightarrow> Raised e s' | Done u s' \<Rightarrow> import_documents E sources s') \<and>
        import_documents E [(source, content)] s = r \<and>
        doc_id_to_source_map s1 old_doc_id = None \<and>
        doc_id_to_excerpt_ids s1 old_doc_id = None \<and>
        (\<forall>src. doc_id_to_source_map s old_doc_id = Some src \<longrightarrow> source_to_doc_id_map s1 src = None) \<and>
        (\<forall>ids. doc_id_to_excerpt_ids s old_doc_id = Some ids \<longrightarrow>
           (\<forall>e \<in> set ids. excerpt_db s1 e = None \<and> e \<notin> fst ` set (embeddings_db s1) \<and>
                            e \<notin> fst ` set (embeddings_file s1))) \<and>
        source_to_doc_id_map s2 source = Some d \<and>
        doc_id_to_source_map s2 d = Some source \<and>
        source_to_doc_id_map (state_of r) source = Some d \<and>
        doc_id_to_source_map (state_of r) d = Some source \<and>
        doc_id_to_source_map (state_of r) old_doc_id = None \<and>
        doc_id_to_excerpt_ids (state_of r) old_doc_id = None \<and>
        (\<forall>u s'. r = Done u s' \<longrightarrow>
           (\<exists>xs. get_excerpts content 2000 200 = Inr xs \<and>
                 doc_id_to_excerpt_ids s' d = Some (map (\<lambda>x. make_hash E x ''excerpt_id_'') xs) \<and>
                 (\<forall>x \<in> set xs. tagged_excerpt s' d (make_hash E x ''excerpt_id_'') \<and>
                                 tagged_vector s' d (make_hash E x ''excerpt_id_'')))))"
proof -
  define d where "d = make_hash E content ''doc_''"
  define s1 where "s1 = remove_document_by_id old_doc_id s"
  define s2 where "s2 = add_document_maps E source content s1"
  define r where "r = index_document E content d s2"
  have g: "import_documents E ((source, content) # sources) s =
      (case r of Raised e s' \<Rightarrow> Raised e s' | Done u s' \<Rightarrow> import_documents E sources s')"
    using assms by (simp add: r_def d_def s2_def s1_def)
  have sgl: "import_documents E [(source, content)] s = r"
    using assms by (cases "index_document E content d s2")
      (simp_all add: r_def d_def s2_def s1_def)
  have a1: "doc_id_to_source_map s1 old_doc_id = None" "doc_id_to_excerpt_ids s1 old_doc_id = None"
    by (simp_all add: s1_def remove_document_by_id_maps remove_document_by_id_stores)
  have a2: "source_to_doc_id_map s1 src = None" if "doc_id_to_source_map s old_doc_id = Some src" for src
    using that by (simp add: s1_def remove_document_by_id_maps)
  have a3: "excerpt_db s1 e = None \<and> e \<notin> fst ` set (embeddings_db s1) \<and> e \<notin> fst ` set (embeddings_file s1)"
    if "doc_id_to_excerpt_ids s old_doc_id = Some ids" "e \<in> set ids" for ids e
    using that by (simp add: s1_def remove_document_by_id_stores fst_set_delete)
  have b: "source_to_doc_id_map s2 source = Some d" "doc_id_to_source_map s2 d = Some source"
    "doc_id_to_source_map s2 old_doc_id = None" "doc_id_to_excerpt_ids s2 old_doc_id = None"
    using assms(2) a1 by (simp_all add: s2_def d_def add_document_maps_maps add_document_maps_stores)
  have c: "source_to_doc_id_map (state_of r) = source_to_doc_id_map s2"
    "doc_id_to_source_map (state_of r) = doc_id_to_source_map s2"
    by (simp_all add: r_def index_document_maps)
  have c2: "doc_id_to_excerpt_ids (state_of r) old_doc_id = None"
    using index_document_d2e [of E content d s2 old_doc_id] assms(2) b(4) by (simp add: r_def d_def)
  have e: "\<exists>xs. get_excerpts content 2000 200 = Inr xs \<and>
                 doc_id_to_excerpt_ids s' d = Some (map (\<lambda>x. make_hash E x ''excerpt_id_'') xs) \<and>
                 (\<forall>x \<in> set xs. tagged_excerpt s' d (make_hash E x ''excerpt_id_'') \<and>
                                 tagged_vector s' d (make_hash E x ''excerpt_id_''))"
    if "r = Done u s'" for u s'
  proof -
    from that have "index_document E content d s2 = Done u s'" by (simp add: r_def)
    from index_document_Done [OF this] show ?thesis by auto
  qed
  show ?thesis
    unfolding Let_def d_def [symmetric] s1_def [symmetric] s2_def [symmetric] r_def [symmetric]
    using g sgl a1 a2 a3 b c c2 e by (intro conjI allI impI ballI) simp_all
qed

theorem import_update_correct_witness:
  "source_to_doc_id_map one_doc_state ''a.txt'' = Some ''doc_x'' \<and>
   ''doc_x'' \<noteq> make_hash plain_env ''y'' ''doc_'' \<and>
   doc_id_to_excerpt_ids one_doc_state ''doc_x'' = Some [''excerpt_id_x''] \<and>
   excerpt_db (remove_document_by_id ''doc_x'' one_doc_state) ''excerpt_id_x'' = None \<and>
   import_documents plain_env [(''a.txt'', ''y''), (''b.txt'', ''z'')] one_doc_state =
     (case index_document plain_env ''y'' ''doc_y''
             (add_document_maps plain_env ''a.txt'' ''y''
                (remove_document_by_id ''doc_x'' one_doc_state)) of
        Raised e s' \<Rightarrow> Raised e s'
      | Done u s' \<Rightarrow> import_documents plain_env [(''b.txt'', ''z'')] s') \<and>
   source_to_doc_id_map
     (state_of (index_document plain_env ''y'' ''doc_y''
                  (add_document_maps plain_env ''a.txt'' ''y''
                     (remove_document_by_id ''doc_x'' one_doc_state)))) ''a.txt''
     = Some ''doc_y'' \<and>
   source_to_doc_id_map
     (state_of (import_documents plain_env [(''a.txt'', ''y'')] one_doc_state)) ''a.txt''
     = Some ''doc_y'' \<and>
   doc_id_to_source_map
     (state_of (import_documents plain_env [(''a.txt'', ''y'')] one_doc_state)) ''doc_x'' = None"
proof -
  let ?r = "index_document plain_env ''y'' ''doc_y''
              (add_document_maps plain_env ''a.txt'' ''y''
                 (remove_document_by_id ''doc_x'' one_doc_state))"
  have h1: "source_to_doc_id_map one_doc_state ''a.txt'' = Some ''doc_x''"
    and h3: "doc_id_to_excerpt_ids one_doc_state ''doc_x'' = Some [''excerpt_id_x'']"
    by (simp_all add: one_doc_state_eq)
  have h2: "''doc_x'' \<noteq> make_hash plain_env ''y'' ''doc_''"
    by (simp add: plain_env_def)
  have m: "make_hash plain_env ''y'' ''doc_'' = ''doc_y''"
    by (simp add: plain_env_def)
  note t = import_update_correct [OF h1 h2, of "[(''b.txt'', ''z'')]", unfolded Let_def m]
  from t have t1: "import_documents plain_env [(''a.txt'', ''y''), (''b.txt'', ''z'')] one_doc_state =
     (case ?r of Raised e s' \<Rightarrow> Raised e s'
      | Done u s' \<Rightarrow> import_documents plain_env [(''b.txt'', ''z'')] s')"
    by (elim conjE)
  from t have t2: "import_documents plain_env [(''a.txt'', ''y'')] one_doc_state = ?r"
    by (elim conjE)
  from t have t5: "\<forall>ids. doc_id_to_excerpt_ids one_doc_state ''doc_x'' = Some ids \<longrightarrow>
           (\<forall>e \<in> set ids. excerpt_db (remove_document_by_id ''doc_x'' one_doc_state) e = None \<and>
              e \<notin> fst ` set (embeddings_db (remove_document_by_id ''doc_x'' one_doc_state)) \<and>
              e \<notin> fst ` set (embeddings_file (remove_document_by_id ''doc_x'' one_doc_state)))"
    by (elim conjE)
  from t have t8: "source_to_doc_id_map (state_of ?r) ''a.txt'' = Some ''doc_y''"
    by (elim conjE)
  from t have t10: "doc_id_to_source_map (state_of ?r) ''doc_x'' = None"
    by (elim conjE)
  from t5 h3 have t6: "excerpt_db (remove_document_by_id ''doc_x'' one_doc_state) ''excerpt_id_x'' = None"
    by simp
  from t8 have t9: "source_to_doc_id_map
       (state_of (import_documents plain_env [(''a.txt'', ''y'')] one_doc_state)) ''a.txt''
       = Some ''doc_y''"
    unfolding t2 .
  from t10 have t11: "doc_id_to_source_map
       (state_of (import_documents plain_env [(''a.txt'', ''y'')] one_doc_state)) ''doc_x'' = None"
    unfolding t2 .
  from h1 h2 h3 t6 t1 t8 t9 t11 show ?thesis by (intro conjI)
qed

lemma cut_short_state_eq:
  "cut_short_state =
     \<lparr>source_to_doc_id_map = [''a.txt'' \<mapsto> ''doc_'' @ replicate 1801 (CHR ''a'')],
      doc_id_to_source_map = [''doc_'' @ replicate 1801 (CHR ''a'') \<mapsto> ''a.txt''],
      doc_id_to_excerpt_ids = Map.empty,
      excerpt_db =
        [''excerpt_id_'' @ replicate 1801 (CHR ''a'') \<mapsto>
           \<lparr>x_doc_id = ''doc_'' @ replicate 1801 (CHR ''a''), x_doc_order_index = 0,
            x_excerpt = replicate 1801 (CHR ''a''), x_summary = [], x_indexed_at = 0\<rparr>],
      embeddings_db = [],
      embeddings_file = [],
      kg_db = NoFile,
      tick = 5\<rparr>"
  by (simp add: cut_short_state_def restart_def index_document_def embed_document_def
      get_excerpts_two call_defs store_excerpt_def flaky_env_def plain_env_def empty_state_def
      add_to_json_def add_document_maps_def Let_def)

lemma long_content_ne: "replicate 1801 c \<noteq> [y]"
  by (auto dest: arg_cong [where f = length])

text \<open>
  Claim C1 as stated fails for the excerpt records that carry the old document id
  without being listed for it. An import pass over \<^verbatim>\<open>a.txt\<close> is cut short by a failing
  model call on the second excerpt: the record of the first excerpt is written and
  carries the document id, the list of excerpt ids is not. When the content of
  \<^verbatim>\<open>a.txt\<close> then changes to \<^verbatim>\<open>y\<close>, the update returns and the source maps to \<^verbatim>\<open>doc_y\<close>,
  but the record is still there, carrying the old document id, after the removal
  step and after the whole update.
\<close>

theorem update_keeps_unlisted_excerpt:
  "source_to_doc_id_map cut_short_state ''a.txt'' = Some (''doc_'' @ replicate 1801 (CHR ''a'')) \<and>
   ''doc_'' @ replicate 1801 (CHR ''a'') \<noteq> make_hash flaky_env ''y'' ''doc_'' \<and>
   tagged_excerpt cut_short_state (''doc_'' @ replicate 1801 (CHR ''a''))
     (''excerpt_id_'' @ replicate 1801 (CHR ''a'')) \<and>
   tagged_excerpt (remove_document_by_id (''doc_'' @ replicate 1801 (CHR ''a'')) cut_short_state)
     (''doc_'' @ replicate 1801 (CHR ''a'')) (''excerpt_id_'' @ replicate 1801 (CHR ''a'')) \<and>
   (case import_documents flaky_env [(''a.txt'', ''y'')] cut_short_state of
      Done u s' \<Rightarrow>
        source_to_doc_id_map s' ''a.txt'' = Some ''doc_y'' \<and>
        tagged_excerpt s' (''doc_'' @ replicate 1801 (CHR ''a''))
          (''excerpt_id_'' @ replicate 1801 (CHR ''a''))
    | Raised e s' \<Rightarrow> False)"
  by (simp add: cut_short_state_eq tagged_excerpt_def remove_document_by_id_def
      remove_from_json_def index_document_def embed_document_def extract_entities_def
      get_excerpts_short call_defs store_excerpt_def flaky_env_def plain_env_def
      add_to_json_def add_document_maps_def Let_def apply_result_empty DiGraph_def
      long_content_ne)

text \<open>
  The state in which the update of a source ends is the state handed to the rest of
  the pass, not the state at the end of the pass. With \<^verbatim>\<open>a.txt\<close> and \<^verbatim>\<open>b.txt\<close> imported
  with contents \<^verbatim>\<open>x\<close> and \<^verbatim>\<open>y\<close>, a pass in which \<^verbatim>\<open>a.txt\<close> has content \<^verbatim>\<open>y\<close> and \<^verbatim>\<open>b.txt\<close>
  content \<^verbatim>\<open>z\<close> first maps \<^verbatim>\<open>a.txt\<close> to \<^verbatim>\<open>doc_y\<close>; the update of \<^verbatim>\<open>b.txt\<close> then removes
  \<^verbatim>\<open>doc_y\<close>, whose recorded source is now \<^verbatim>\<open>a.txt\<close>, and the pass returns with \<^verbatim>\<open>a.txt\<close>
  in no entry.
\<close>

lemma later_update_unmaps_source:
  "(case import_documents plain_env [(''a.txt'', ''y''), (''b.txt'', ''z'')]
           (state_of (import_documents plain_env [(''a.txt'', ''x''), (''b.txt'', ''y'')]
                        empty_state)) of
      Done u s' \<Rightarrow>
        source_to_doc_id_map s' ''a.txt'' = None \<and>
        source_to_doc_id_map s' ''b.txt'' = Some ''doc_z'' \<and>
        doc_id_to_source_map s' ''doc_y'' = None
    | Raised e s' \<Rightarrow> False)"
  by (simp add: run_defs remove_document_by_id_def remove_from_json_def delete_def)

text \<open>
  Claim C8, as amended. After any sequence of import passes and removals that
  starts with both maps empty, every entry of the doc-id to source map is mirrored in the
  source to doc-id map: if \<open>d\<close> maps to \<open>source\<close>, then \<open>source\<close> maps to \<open>d\<close>. The source
  to doc-id map is a map, so a source has at most one document id.
\<close>

theorem doc_id_map_mirrored:
  assumes "source_to_doc_id_map s0 = Map.empty" "doc_id_to_source_map s0 = Map.empty"
    and "doc_id_to_source_map (run E ops s0) d = Some source"
  shows "source_to_doc_id_map (run E ops s0) source = Some d"
proof -
  from assms(1,2) have "maps_linked s0" by (simp add: maps_linked_def)
  then have "maps_linked (run E ops s0)" by (rule maps_linked_run)
  with assms(3) show ?thesis by (simp add: maps_linked_def)
qed

theorem doc_id_map_mirrored_witness:
  "source_to_doc_id_map empty_state = Map.empty \<and>
   doc_id_to_source_map empty_state = Map.empty \<and>
   doc_id_to_source_map (run plain_env [Import [(''a.txt'', ''x'')]] empty_state) ''doc_x''
     = Some ''a.txt'' \<and>
   source_to_doc_id_map (run plain_env [Import [(''a.txt'', ''x'')]] empty_state) ''a.txt''
     = Some ''doc_x''"
proof -
  have r: "run plain_env [Import [(''a.txt'', ''x'')]] empty_state = one_doc_state"
    by (simp add: run_def one_doc_state_def)
  have h1: "source_to_doc_id_map empty_state = Map.empty"
    and h2: "doc_id_to_source_map empty_state = Map.empty"
    by (simp_all add: empty_state_def)
  have h3: "doc_id_to_source_map (run plain_env [Import [(''a.txt'', ''x'')]] empty_state) ''doc_x''
     = Some ''a.txt''"
    by (simp add: r one_doc_state_eq)
  from doc_id_map_mirrored [OF h1 h2 h3] h1 h2 h3 show ?thesis by simp
qed

text \<open>
  Claim C8 as stated fails. Two sources with the same content have the same document
  id: after one import pass over \<^verbatim>\<open>a.txt\<close> and \<^verbatim>\<open>b.txt\<close>, both with content \<^verbatim>\<open>x\<close>, the
  source \<^verbatim>\<open>a.txt\<close> maps to \<^verbatim>\<open>doc_x\<close>, but \<^verbatim>\<open>doc_x\<close> maps to \<^verbatim>\<open>b.txt\<close>.
\<close>

theorem doc_id_map_not_inverse:
  "source_to_doc_id_map
     (run plain_env [Import [(''a.txt'', ''x''), (''b.txt'', ''x'')]] empty_state) ''a.txt''
     = Some ''doc_x'' \<and>
   doc_id_to_source_map
     (run plain_env [Import [(''a.txt'', ''x''), (''b.txt'', ''x'')]] empty_state) ''doc_x''
     = Some ''b.txt'' \<and>
   doc_id_to_source_map
     (run plain_env [Import [(''a.txt'', ''x''), (''b.txt'', ''x'')]] empty_state) ''doc_x''
     \<noteq> Some ''a.txt''"
  by (simp add: run_def run_defs)

section \<open>Chunking and indexing together\<close>

lemma length_keys_card:
  "distinct (map fst db) \<Longrightarrow> length db = card (fst ` set db)"
  using distinct_card [of "map fst db"] by simp

text \<open>
  Claim C6, as amended. With \<open>0 \<le> overlap < n\<close> and step \<open>n - overlap\<close> the chunker
  returns \<open>ceil(len(content) / step)\<close> excerpts, the \<open>i\<close>-th being the \<open>n\<close> characters from
  offset \<open>i * step\<close>, of length \<open>min(n, len(content) - i * step)\<close>. When the embedding leg
  returns, the document id lists the excerpt ids in chunk order, and the ids of the
  vector index are those it had together with the excerpt ids; ids stay distinct, so
  there is one vector record for each excerpt id: excerpts with the same id share
  theirs, and an index that was empty holds as many records as there are different
  excerpt ids.
\<close>

theorem chunk_and_index:
  "(0 \<le> overlap \<and> overlap < n \<longrightarrow>
      (\<exists>xs. get_excerpts content n overlap = Inr xs \<and>
         length xs = nat \<lceil>real (length content) / real_of_int (n - overlap)\<rceil> \<and>
         (\<forall>i < length xs.
            xs ! i = take (nat n) (drop (i * nat (n - overlap)) content) \<and>
            length (xs ! i) = min (nat n) (length content - i * nat (n - overlap))))) \<and>
   (embed_document E content d s = Done u s' \<longrightarrow>
      (\<exists>xs. get_excerpts content 2000 200 = Inr xs \<and>
         doc_id_to_excerpt_ids s' d = Some (map (\<lambda>x. make_hash E x ''excerpt_id_'') xs) \<and>
         fst ` set (embeddings_db s') =
           fst ` set (embeddings_db s) \<union> (\<lambda>x. make_hash E x ''excerpt_id_'') ` set xs \<and>
         (distinct (map fst (embeddings_db s)) \<longrightarrow> distinct (map fst (embeddings_db s'))) \<and>
         (embeddings_db s = [] \<longrightarrow>
            length (embeddings_db s') = card ((\<lambda>x. make_hash E x ''excerpt_id_'') ` set xs)) \<and>
         (\<forall>x \<in> set xs. tagged_vector s' d (make_hash E x ''excerpt_id_''))))"
proof (intro conjI impI)
  assume a: "0 \<le> overlap \<and> overlap < n"
  let ?k = "nat (n - overlap)"
  let ?xs = "map (\<lambda>i. take (nat n) (drop (i * ?k) content)) [0..<(length content + ?k - 1) div ?k]"
  have k: "0 < ?k" using a by simp
  have g: "get_excerpts content n overlap = Inr ?xs"
    using a by (simp add: get_excerpts_windows)
  have "real ?k = real_of_int (n - overlap)" using a by simp
  with ceiling_div_nat [OF k, of "length content"]
  have l: "length ?xs = nat \<lceil>real (length content) / real_of_int (n - overlap)\<rceil>"
    by simp
  have p: "\<forall>i < length ?xs.
            ?xs ! i = take (nat n) (drop (i * ?k) content) \<and>
            length (?xs ! i) = min (nat n) (length content - i * ?k)"
    by (simp add: min.commute)
  show "\<exists>xs. get_excerpts content n overlap = Inr xs \<and>
         length xs = nat \<lceil>real (length content) / real_of_int (n - overlap)\<rceil> \<and>
         (\<forall>i < length xs.
            xs ! i = take (nat n) (drop (i * nat (n - overlap)) content) \<and>
            length (xs ! i) = min (nat n) (length content - i * nat (n - overlap)))"
  proof (intro exI conjI)
    show "get_excerpts content n overlap = Inr ?xs" by (fact g)
    show "length ?xs = nat \<lceil>real (length content) / real_of_int (n - overlap)\<rceil>"
      by (fact l)
    show "\<forall>i < length ?xs.
            ?xs ! i = take (nat n) (drop (i * ?k) content) \<and>
            length (?xs ! i) = min (nat n) (length content - i * ?k)"
      by (fact p)
  qed
next
  assume a: "embed_document E content d s = Done u s'"
  from embed_document_Done [OF a] obtain xs where
    xs: "get_excerpts content 2000 200 = Inr xs" and
    e: "doc_id_to_excerpt_ids s' =
       (doc_id_to_excerpt_ids s)(d \<mapsto> map (\<lambda>x. make_hash E x ''excerpt_id_'') xs)" and
    k: "fst ` set (embeddings_db s') =
       fst ` set (embeddings_db s) \<union> (\<lambda>x. make_hash E x ''excerpt_id_'') ` set xs" and
    di: "distinct (map fst (embeddings_db s)) \<longrightarrow> distinct (map fst (embeddings_db s'))" and
    tg: "\<forall>x \<in> set xs. tagged_vector s' d (make_hash E x ''excerpt_id_'')"
    by auto
  have c: "length (embeddings_db s') = card ((\<lambda>x. make_hash E x ''excerpt_id_'') ` set xs)"
    if "embeddings_db s = []"
    using that di k length_keys_card [of "embeddings_db s'"] by simp
  from xs e k di tg c
  show "\<exists>xs. get_excerpts content 2000 200 = Inr xs \<and>
         doc_id_to_excerpt_ids s' d = Some (map (\<lambda>x. make_hash E x ''excerpt_id_'') xs) \<and>
         fst ` set (embeddings_db s') =
           fst ` set (embeddings_db s) \<union> (\<lambda>x. make_hash E x ''excerpt_id_'') ` set xs \<and>
         (distinct (map fst (embeddings_db s)) \<longrightarrow> distinct (map fst (embeddings_db s'))) \<and>
         (embeddings_db s = [] \<longrightarrow>
            length (embeddings_db s') = card ((\<lambda>x. make_hash E x ''excerpt_id_'') ` set xs)) \<and>
         (\<forall>x \<in> set xs. tagged_vector s' d (make_hash E x ''excerpt_id_''))"
    by (intro exI [of _ xs]) simp
qed

theorem chunk_and_index_witness:
  "(0::int) \<le> 1 \<and> (1::int) < 3 \<and>
   (\<exists>xs. get_excerpts ''abcde'' 3 1 = Inr xs \<and> length xs = 3 \<and>
         xs ! 0 = ''abc'' \<and> xs ! 1 = ''cde'' \<and> xs ! 2 = ''e'') \<and>
   embed_document plain_env ''x'' ''doc_x'' empty_state =
     Done () (state_of (embed_document plain_env ''x'' ''doc_x'' empty_state)) \<and>
   doc_id_to_excerpt_ids (state_of (embed_document plain_env ''x'' ''doc_x'' empty_state)) ''doc_x''
     = Some [''excerpt_id_x''] \<and>
   length (embeddings_db (state_of (embed_document plain_env ''x'' ''doc_x'' empty_state))) = 1"
proof -
  define S where "S = state_of (embed_document plain_env ''x'' ''doc_x'' empty_state)"
  have h1: "(0::int) \<le> 1 \<and> (1::int) < 3" by simp
  have h2: "embed_document plain_env ''x'' ''doc_x'' empty_state = Done () S"
    unfolding S_def by (simp add: run_defs)
  have e0: "embeddings_db empty_state = []" by (simp add: empty_state_def)
  have gx: "get_excerpts ''x'' 2000 200 = Inr [''x'']" by (simp add: get_excerpts_short)
  have mh: "make_hash plain_env ''x'' ''excerpt_id_'' = ''excerpt_id_x''"
    by (simp add: plain_env_def)
  note t1 = chunk_and_index [where overlap = 1 and n = 3 and content = "''abcde''"]
  note t2 = chunk_and_index [where content = "''x''" and E = plain_env and d = "''doc_x''"
      and s = empty_state and s' = S]
  have three: "(\<forall>i<(3::nat). P i) = (P 0 \<and> P 1 \<and> P 2)" for P
    by (auto simp: numeral_3_eq_3 numeral_2_eq_2 less_Suc_eq)
  from t1 have "(0::int) \<le> 1 \<and> (1::int) < 3 \<longrightarrow>
      (\<exists>xs. get_excerpts ''abcde'' 3 1 = Inr xs \<and>
         length xs = nat \<lceil>real (length ''abcde'') / real_of_int (3 - 1)\<rceil> \<and>
         (\<forall>i < length xs.
            xs ! i = take (nat 3) (drop (i * nat (3 - 1)) ''abcde'') \<and>
            length (xs ! i) = min (nat 3) (length ''abcde'' - i * nat (3 - 1))))"
    by (rule conjunct1)
  from this h1 have "\<exists>xs. get_excerpts ''abcde'' 3 1 = Inr xs \<and>
         length xs = nat \<lceil>real (length ''abcde'') / real_of_int (3 - 1)\<rceil> \<and>
         (\<forall>i < length xs.
            xs ! i = take (nat 3) (drop (i * nat (3 - 1)) ''abcde'') \<and>
            length (xs ! i) = min (nat 3) (length ''abcde'' - i * nat (3 - 1)))"
    by (rule mp)
  then have p1: "\<exists>xs. get_excerpts ''abcde'' 3 1 = Inr xs \<and> length xs = 3 \<and>
         xs ! 0 = ''abc'' \<and> xs ! 1 = ''cde'' \<and> xs ! 2 = ''e''"
    by (auto simp: three)
  from t2 h2 gx e0 have p2: "doc_id_to_excerpt_ids S ''doc_x'' = Some [''excerpt_id_x''] \<and>
      length (embeddings_db S) = 1"
    by (simp add: mh)
  from h1 p1 h2 p2 show ?thesis unfolding S_def by simp
qed

text \<open>
  Claim C6 as stated fails where it counts one vector record per excerpt. A content of
  3800 times the same character has three excerpts, the first two equal; with a hash
  that never collides the embedding leg, started on empty stores, returns with two
  records in the vector index.
\<close>

theorem chunk_index_counterexample:
  "get_excerpts (replicate 3800 (CHR ''a'')) 2000 200 =
     Inr [replicate 2000 (CHR ''a''), replicate 2000 (CHR ''a''), replicate 200 (CHR ''a'')] \<and>
   (case embed_document plain_env (replicate 3800 (CHR ''a'')) ''doc_a'' empty_state of
      Done u s' \<Rightarrow> length (embeddings_db s') = 2
    | Raised e s' \<Rightarrow> False)"
  by (simp add: get_excerpts_repeated embed_document_def call_defs store_excerpt_def
      plain_env_def empty_state_def add_to_json_def Let_def)

section \<open>A model call that fails during the embedding leg\<close>

lemma embed_excerpts_append:
  "embed_excerpts E c d i (xs @ ys) ids s =
     (case embed_excerpts E c d i xs ids s of
        Raised e s1 \<Rightarrow> Raised e s1
      | Done ids1 s1 \<Rightarrow> embed_excerpts E c d (i + length xs) ys ids1 s1)"
proof (induction xs arbitrary: i ids s)
  case Nil
  show ?case by simp
next
  case (Cons x xs)
  show ?case
  proof (cases "get_excerpt_summary E c x s")
    case (Raised e s1)
    then show ?thesis by simp
  next
    case sm: (Done summary s1)
    show ?thesis
    proof (cases "get_embedding E (x @ [CHR 0x0A, CHR 0x0A] @ summary) s1")
      case (Raised e s2)
      with sm show ?thesis by simp
    next
      case (Done v s2)
      have "i + length (x # xs) = Suc i + length xs" by simp
      with sm Done Cons.IH show ?thesis by (simp add: Let_def split: outcome.splits)
    qed
  qed
qed

lemma embed_excerpts_fails:
  assumes "excerpt_fails E c x s"
  shows "\<exists>t. embed_excerpts E c d i (x # rest) ids s = Raised ModelCallError (s\<lparr>tick := t\<rparr>)"
  using assms
  by (auto simp: excerpt_fails_def call_defs Let_def split: option.splits)

text \<open>
  Claim C10. Let the excerpts \<open>0\<close> to \<open>k - 1\<close> of a document be processed, reaching the
  state \<open>sk\<close>, and let the summary call or the embedding call raise for excerpt \<open>k\<close>.
  Then the embedding leg, and with it the indexing of the document, raises the model
  call's error, in a state that has the excerpt records and the vector index of
  \<open>sk\<close>: every excerpt before \<open>k\<close> has its excerpt record and its vector, carrying the
  document id. Nothing is undone; the list of excerpt ids of the document is not
  written and the index is not saved to its file.
\<close>

theorem embed_failure_no_rollback:
  assumes "get_excerpts content 2000 200 = Inr xs"
    and "k < length xs"
    and "embed_excerpts E content d 0 (take k xs) [] s = Done ids sk"
    and "excerpt_fails E content (xs ! k) sk"
  shows "\<exists>s'. embed_document E content d s = Raised ModelCallError s' \<and>
     index_document E content d s = Raised ModelCallError s' \<and>
     excerpt_db s' = excerpt_db sk \<and>
     embeddings_db s' = embeddings_db sk \<and>
     (\<forall>i < k. tagged_excerpt s' d (make_hash E (xs ! i) ''excerpt_id_'') \<and>
               tagged_vector s' d (make_hash E (xs ! i) ''excerpt_id_'')) \<and>
     doc_id_to_excerpt_ids s' = doc_id_to_excerpt_ids s \<and>
     embeddings_file s' = embeddings_file s"
proof -
  have split: "xs = take k xs @ (xs ! k) # drop (Suc k) xs"
    using assms(2) by (simp add: id_take_nth_drop [symmetric])
  obtain t where f: "embed_excerpts E content d (0 + length (take k xs)) (xs ! k # drop (Suc k) xs) ids sk
      = Raised ModelCallError (sk\<lparr>tick := t\<rparr>)"
    using embed_excerpts_fails [OF assms(4)] by blast
  have loop: "embed_excerpts E content d 0 xs [] s = Raised ModelCallError (sk\<lparr>tick := t\<rparr>)"
    by (subst split, subst embed_excerpts_append) (simp only: assms(3) outcome.case f)
  let ?s' = "sk\<lparr>tick := t\<rparr>"
  have e: "embed_document E content d s = Raised ModelCallError ?s'"
    using assms(1) loop by (simp add: embed_document_def)
  then have ix: "index_document E content d s = Raised ModelCallError ?s'"
    by (simp add: index_document_def)
  have tg: "tagged_excerpt sk d (make_hash E (xs ! i) ''excerpt_id_'') \<and>
            tagged_vector sk d (make_hash E (xs ! i) ''excerpt_id_'')" if "i < k" for i
  proof -
    from that assms(2) have "xs ! i \<in> set (take k xs)"
      by (auto simp: in_set_conv_nth intro!: exI [of _ i])
    with embed_excerpts_Done [OF assms(3)] show ?thesis by blast
  qed
  have fr: "doc_id_to_excerpt_ids sk = doc_id_to_excerpt_ids s" "embeddings_file sk = embeddings_file s"
    using embed_excerpts_frame [of E content d 0 "take k xs" "[]" s] assms(3) by simp_all
  have "excerpt_db ?s' = excerpt_db sk \<and>
     embeddings_db ?s' = embeddings_db sk \<and>
     (\<forall>i < k. tagged_excerpt ?s' d (make_hash E (xs ! i) ''excerpt_id_'') \<and>
               tagged_vector ?s' d (make_hash E (xs ! i) ''excerpt_id_'')) \<and>
     doc_id_to_excerpt_ids ?s' = doc_id_to_excerpt_ids s \<and>
     embeddings_file ?s' = embeddings_file s"
    using tg fr by (simp add: tagged_excerpt_def tagged_vector_def)
  with e ix show ?thesis by (intro exI [of _ ?s']) simp
qed

theorem embed_failure_no_rollback_witness:
  "get_excerpts (replicate 1801 (CHR ''a'')) 2000 200 = Inr [replicate 1801 (CHR ''a''), ''a''] \<and>
   (1::nat) < length [replicate 1801 (CHR ''a''), ''a''] \<and>
   embed_excerpts flaky_env (replicate 1801 (CHR ''a'')) ''doc_a'' 0
       (take 1 [replicate 1801 (CHR ''a''), ''a'']) [] empty_state
     = Done [''excerpt_id_'' @ replicate 1801 (CHR ''a'')]
        (state_of (embed_excerpts flaky_env (replicate 1801 (CHR ''a'')) ''doc_a'' 0
           [replicate 1801 (CHR ''a'')] [] empty_state)) \<and>
   excerpt_fails flaky_env (replicate 1801 (CHR ''a'')) ([replicate 1801 (CHR ''a''), ''a''] ! 1)
     (state_of (embed_excerpts flaky_env (replicate 1801 (CHR ''a'')) ''doc_a'' 0
           [replicate 1801 (CHR ''a'')] [] empty_state)) \<and>
   (\<exists>s'. embed_document flaky_env (replicate 1801 (CHR ''a'')) ''doc_a'' empty_state
           = Raised ModelCallError s' \<and>
         tagged_excerpt s' ''doc_a'' (''excerpt_id_'' @ replicate 1801 (CHR ''a'')) \<and>
         tagged_vector s' ''doc_a'' (''excerpt_id_'' @ replicate 1801 (CHR ''a'')) \<and>
         doc_id_to_excerpt_ids s' = doc_id_to_excerpt_ids empty_state \<and>
         embeddings_file s' = embeddings_file empty_state)"
proof -
  let ?c = "replicate 1801 (CHR ''a'')"
  let ?xs = "[?c, ''a'']"
  define sk where "sk = state_of (embed_excerpts flaky_env ?c ''doc_a'' 0 [?c] [] empty_state)"
  have h1: "get_excerpts ?c 2000 200 = Inr ?xs" by (simp add: get_excerpts_two)
  have h2: "(1::nat) < length ?xs" by simp
  have h3: "embed_excerpts flaky_env ?c ''doc_a'' 0 (take 1 ?xs) [] empty_state
      = Done [''excerpt_id_'' @ ?c] sk"
    unfolding sk_def
    by (simp add: call_defs store_excerpt_def flaky_env_def plain_env_def empty_state_def
        add_to_json_def Let_def)
  have tk: "tick sk = 4"
    unfolding sk_def
    by (simp add: call_defs store_excerpt_def flaky_env_def plain_env_def empty_state_def
        add_to_json_def Let_def)
  have h4: "excerpt_fails flaky_env ?c (?xs ! 1) sk"
    by (simp add: excerpt_fails_def call_defs flaky_env_def plain_env_def tk)
  have mh: "make_hash flaky_env x ''excerpt_id_'' = ''excerpt_id_'' @ x" for x
    by (simp add: flaky_env_def plain_env_def)
  from embed_failure_no_rollback [OF h1 h2 h3 h4]
  have "\<exists>s'. embed_document flaky_env ?c ''doc_a'' empty_state = Raised ModelCallError s' \<and>
         tagged_excerpt s' ''doc_a'' (''excerpt_id_'' @ ?c) \<and>
         tagged_vector s' ''doc_a'' (''excerpt_id_'' @ ?c) \<and>
         doc_id_to_excerpt_ids s' = doc_id_to_excerpt_ids empty_state \<and>
         embeddings_file s' = embeddings_file empty_state"
    unfolding mh by auto
  with h1 h2 h3 h4 show ?thesis unfolding sk_def by simp
qed

section \<open>The extraction leg\<close>

lemmas string_defs =
  replace_def strip_def is_space_def lower_def lower_char_def
  split_string_by_multi_markers_def marker_at_def clean_record_def clean_str_def
  startswith_def endswith_def py_slice_def Let_def

lemma scenario_B_records:
  \<open>map clean_record (split_string_by_multi_markers
      (strip (replace scenario_B_response ''<|COMPLETE|>'' [])) [''+|+'']) =
   [''"entity"<|>"Rabbit"<|>"Animal"<|>"A small mammal"'',
    ''"entity"<|>"Carrot"<|>"Food"<|>"A root vegetable"'',
    ''"relationship"<|>"Rabbit"<|>"Carrot"<|>"eats"<|>"diet"<|>"0.9"'']\<close>
  by (simp add: scenario_B_response_def string_defs)

lemma scenario_B_fields:
  \<open>split_string_by_multi_markers ''"entity"<|>"Rabbit"<|>"Animal"<|>"A small mammal"'' [''<|>'']
     = [''"entity"'', ''"Rabbit"'', ''"Animal"'', ''"A small mammal"'']\<close>
  \<open>split_string_by_multi_markers ''"entity"<|>"Carrot"<|>"Food"<|>"A root vegetable"'' [''<|>'']
     = [''"entity"'', ''"Carrot"'', ''"Food"'', ''"A root vegetable"'']\<close>
  \<open>split_string_by_multi_markers
       ''"relationship"<|>"Rabbit"<|>"Carrot"<|>"eats"<|>"diet"<|>"0.9"'' [''<|>'']
     = [''"relationship"'', ''"Rabbit"'', ''"Carrot"'', ''"eats"'', ''"diet"'', ''"0.9"'']\<close>
  by (simp_all add: string_defs)

lemma lower_types:
  \<open>lower ''"entity"'' = ''"entity"''\<close>
  \<open>lower ''"relationship"'' = ''"relationship"''\<close>
  by (simp_all add: lower_def lower_char_def)

lemma apply_result_scenario_B:
  "apply_result DiGraph scenario_B_response = scenario_B_graph"
  unfolding apply_result_def Let_def scenario_B_records
  by (simp add: apply_record_def scenario_B_fields lower_types Let_def add_node_def add_edge_def
      attrs_of_def DiGraph_def scenario_B_graph_def)

lemma scenario_B_graph_shape:
  \<open>dom (g_nodes scenario_B_graph) = {''"Rabbit"'', ''"Carrot"''} \<and>
   dom (g_edges scenario_B_graph) = {(''"Rabbit"'', ''"Carrot"'')} \<and>
   (\<exists>a. g_edges scenario_B_graph (''"Rabbit"'', ''"Carrot"'') = Some a \<and>
        a ''weight'' = Some ''"0.9"'')\<close>
  by (auto simp: scenario_B_graph_def split: if_splits)

text \<open>
  Claim C4. When a document has a single excerpt, the model answers the extraction
  prompt of that excerpt with the response of scenario B, and the extraction
  starts from the empty graph (no graph file, an unreadable one, or one holding the empty
  graph), \<^verbatim>\<open>extract_entities\<close> returns and writes the graph of scenario B: its nodes are
  exactly \<^verbatim>\<open>"Rabbit"\<close> and \<^verbatim>\<open>"Carrot"\<close>, its only edge goes from \<^verbatim>\<open>"Rabbit"\<close> to
  \<^verbatim>\<open>"Carrot"\<close>, and the weight of that edge is the text \<^verbatim>\<open>"0.9"\<close>. The quotes of the
  response are part of the names and of the attribute values.
\<close>

theorem scenario_B_extraction:
  assumes "get_excerpts content 2000 200 = Inr [excerpt]"
    and "completion E (tick s) (get_extract_entities_prompt E excerpt) = Some scenario_B_response"
    and "kg_db s = NoFile \<or> kg_db s = Unreadable \<or> kg_db s = GraphML DiGraph"
  shows \<open>(\<exists>s'. extract_entities E content d s = Done () s' \<and>
              kg_db s' = GraphML scenario_B_graph) \<and>
         dom (g_nodes scenario_B_graph) = {''"Rabbit"'', ''"Carrot"''} \<and>
         dom (g_edges scenario_B_graph) = {(''"Rabbit"'', ''"Carrot"'')} \<and>
         (\<exists>a. g_edges scenario_B_graph (''"Rabbit"'', ''"Carrot"'') = Some a \<and>
              a ''weight'' = Some ''"0.9"'')\<close>
proof -
  have g: "(case kg_db s of GraphML g0 \<Rightarrow> g0 | Unreadable \<Rightarrow> DiGraph | NoFile \<Rightarrow> DiGraph) = DiGraph"
    using assms(3) by auto
  have "extract_entities E content d s =
      Done () (s\<lparr>tick := Suc (tick s), kg_db := GraphML scenario_B_graph\<rparr>)"
    using assms(1,2)
    by (simp add: extract_entities_def g get_completion_def apply_result_scenario_B)
  then have "\<exists>s'. extract_entities E content d s = Done () s' \<and>
              kg_db s' = GraphML scenario_B_graph"
    by simp
  with scenario_B_graph_shape show ?thesis by simp
qed

theorem scenario_B_extraction_witness:
  "get_excerpts ''x'' 2000 200 = Inr [''x''] \<and>
   completion scenario_B_env (tick empty_state) (get_extract_entities_prompt scenario_B_env ''x'')
     = Some scenario_B_response \<and>
   kg_db empty_state = NoFile \<and>
   (\<exists>s'. extract_entities scenario_B_env ''x'' ''doc_x'' empty_state = Done () s' \<and>
         kg_db s' = GraphML scenario_B_graph)"
proof -
  have h1: "get_excerpts ''x'' 2000 200 = Inr [''x'']" by (simp add: get_excerpts_short)
  have h2: "completion scenario_B_env (tick empty_state)
      (get_extract_entities_prompt scenario_B_env ''x'') = Some scenario_B_response"
    by (simp add: scenario_B_env_def)
  have h3: "kg_db empty_state = NoFile" by (simp add: empty_state_def)
  then have h3': "kg_db empty_state = NoFile \<or> kg_db empty_state = Unreadable \<or>
      kg_db empty_state = GraphML DiGraph" by simp
  from scenario_B_extraction [OF h1 h2 h3', of "''doc_x''"]
  have "\<exists>s'. extract_entities scenario_B_env ''x'' ''doc_x'' empty_state = Done () s' \<and>
         kg_db s' = GraphML scenario_B_graph"
    by (rule conjunct1)
  with h1 h2 h3 show ?thesis by (simp del: One_nat_def)
qed

lemma apply_record_malformed: "malformed r \<Longrightarrow> apply_record g r = g"
  by (auto simp: malformed_def apply_record_def Let_def)

lemma foldl_apply_record_filter:
  "foldl apply_record g rs = foldl apply_record g (filter (\<lambda>r. \<not> malformed r) rs)"
  by (induction rs arbitrary: g) (simp_all add: apply_record_malformed)

text \<open>
  Claim C5. A record with no field, with fewer fields than its kind requires, or of
  no known kind leaves the graph as it is, and the batch gives the same graph with it
  as without it, whatever records come before and after. Applying the model's answer
  for an excerpt is applying, in order, the records of the answer that are not of
  this sort. Applying a record has no error result.
\<close>

theorem malformed_record_dropped:
  "(malformed r \<longrightarrow>
      apply_record g r = g \<and>
      foldl apply_record g (rs1 @ r # rs2) = foldl apply_record g (rs1 @ rs2)) \<and>
   apply_result g result =
     foldl apply_record g
       (filter (\<lambda>r. \<not> malformed r)
          (map clean_record
             (split_string_by_multi_markers
                (strip (replace result ''<|COMPLETE|>'' [])) [''+|+''])))"
proof (intro conjI impI)
  assume m: "malformed r"
  then show "apply_record g r = g" by (rule apply_record_malformed)
  from m show "foldl apply_record g (rs1 @ r # rs2) = foldl apply_record g (rs1 @ rs2)"
    by (simp add: apply_record_malformed)
next
  show "apply_result g result =
     foldl apply_record g
       (filter (\<lambda>r. \<not> malformed r)
          (map clean_record
             (split_string_by_multi_markers
                (strip (replace result ''<|COMPLETE|>'' [])) [''+|+''])))"
    unfolding apply_result_def Let_def by (rule foldl_apply_record_filter)
qed

theorem malformed_record_dropped_witness:
  \<open>malformed ''"entity"<|>"Rabbit"'' \<and>
   apply_record scenario_B_graph ''"entity"<|>"Rabbit"'' = scenario_B_graph \<and>
   foldl apply_record DiGraph
     ([''"content_keywords"<|>"diet"''] @ ''"entity"<|>"Rabbit"'' # [''"event"<|>"lunch"''])
   = foldl apply_record DiGraph ([''"content_keywords"<|>"diet"''] @ [''"event"<|>"lunch"'']) \<and>
   malformed ''"event"<|>"lunch"'' \<and>
   apply_record scenario_B_graph ''"event"<|>"lunch"'' = scenario_B_graph\<close>
proof -
  have h1: \<open>malformed ''"entity"<|>"Rabbit"''\<close>
    by (simp add: malformed_def string_defs)
  have h2: \<open>malformed ''"event"<|>"lunch"''\<close>
    by (simp add: malformed_def string_defs)
  from malformed_record_dropped
         [of \<open>''"entity"<|>"Rabbit"''\<close> scenario_B_graph \<open>[''"content_keywords"<|>"diet"'']\<close>
             \<open>[''"event"<|>"lunch"'']\<close> "[]"] h1
  have a: \<open>apply_record scenario_B_graph ''"entity"<|>"Rabbit"'' = scenario_B_graph\<close>
    by blast
  from malformed_record_dropped
         [of \<open>''"entity"<|>"Rabbit"''\<close> DiGraph \<open>[''"content_keywords"<|>"diet"'']\<close>
             \<open>[''"event"<|>"lunch"'']\<close> "[]"] h1
  have b: \<open>foldl apply_record DiGraph
     ([''"content_keywords"<|>"diet"''] @ ''"entity"<|>"Rabbit"'' # [''"event"<|>"lunch"''])
   = foldl apply_record DiGraph ([''"content_keywords"<|>"diet"''] @ [''"event"<|>"lunch"''])\<close>
    by blast
  from malformed_record_dropped
         [of \<open>''"event"<|>"lunch"''\<close> scenario_B_graph "[]" "[]" "[]"] h2
  have c: \<open>apply_record scenario_B_graph ''"event"<|>"lunch"'' = scenario_B_graph\<close>
    by blast
  from h1 a b h2 c show ?thesis by (intro conjI)
qed

end
